theory Spec2Isabelle
  imports Complex_Main "HOL-Library.Multiset"
begin

section \<open>Errors\<close>

text \<open>
  Every exception the modelled Python can raise is a value. The constructors are named
  after the Python exception class, with the place that raises it.
\<close>

datatype py_error =
    SplitSizeError          \<comment> \<open>\<open>torch.split\<close>: negative split size, or size 0 on a non-empty tensor\<close>
  | IndexError              \<comment> \<open>dataset index out of range\<close>
  | EmptySequencesError     \<comment> \<open>\<open>pad_sequence\<close> called on an empty list of sequences\<close>
  | StopIteration           \<comment> \<open>\<open>next\<close> on an exhausted iterator\<close>
  | ZeroDivisionError       \<comment> \<open>\<open>/\<close> or \<open>%\<close> with a zero right operand\<close>
  | UnboundLocalError       \<comment> \<open>a local variable read before any assignment\<close>
  | AttributeError          \<comment> \<open>\<open>self.table\<close> read before \<open>fit\<close> created it\<close>
  | ValueError              \<comment> \<open>the train/test split refusing its arguments\<close>

definition ebind :: "'e + 'a \<Rightarrow> ('a \<Rightarrow> 'e + 'b) \<Rightarrow> 'e + 'b" where
  "ebind m f = (case m of Inl e \<Rightarrow> Inl e | Inr x \<Rightarrow> f x)"

section \<open>Python floats\<close>

text \<open>
  A Python \<open>float\<close> is a finite binary floating-point number (given by the real number
  it denotes), an infinity or a NaN. Arithmetic on finite floats computes the exact
  result and rounds it; the rounding function (to the nearest float, to an infinity
  when out of range) is a parameter \<open>rnd\<close> of the operations. Comparisons with a NaN
  are false. A division by zero raises.
\<close>

datatype pyfloat = Finite real | PosInf | NegInf | NaN

fun py_add :: "(real \<Rightarrow> pyfloat) \<Rightarrow> pyfloat \<Rightarrow> pyfloat \<Rightarrow> pyfloat" where
  "py_add rnd (Finite x) (Finite y) = rnd (x + y)"
| "py_add rnd NaN b = NaN"
| "py_add rnd a NaN = NaN"
| "py_add rnd PosInf NegInf = NaN"
| "py_add rnd NegInf PosInf = NaN"
| "py_add rnd PosInf b = PosInf"
| "py_add rnd a PosInf = PosInf"
| "py_add rnd NegInf b = NegInf"
| "py_add rnd a NegInf = NegInf"

fun py_lt :: "pyfloat \<Rightarrow> pyfloat \<Rightarrow> bool" where
  "py_lt (Finite x) (Finite y) = (x < y)"
| "py_lt NaN b = False"
| "py_lt a NaN = False"
| "py_lt PosInf b = False"
| "py_lt a NegInf = False"
| "py_lt a PosInf = True"
| "py_lt NegInf b = True"

text \<open>The quotient of a float by a positive integer, and \<open>float / int\<close> with its error.\<close>

fun float_div :: "(real \<Rightarrow> pyfloat) \<Rightarrow> pyfloat \<Rightarrow> nat \<Rightarrow> pyfloat" where
  "float_div rnd (Finite x) n = rnd (x / real n)"
| "float_div rnd a n = a"

definition py_truediv :: "(real \<Rightarrow> pyfloat) \<Rightarrow> pyfloat \<Rightarrow> nat \<Rightarrow> py_error + pyfloat" where
  "py_truediv rnd a b = (if b = 0 then Inl ZeroDivisionError else Inr (float_div rnd a b))"

section \<open>The batch sampler (dataset.py, CustomBatchSampler)\<close>

subsection \<open>torch.split on a one-dimensional tensor\<close>

text \<open>
  \<open>chunk\<close> calls \<open>torch.split(torch.tensor(indices), chunk_size)\<close>. The library computes
  the number of pieces as \<open>max (ceil (dim_size / split_size)) 1\<close> (one piece when both
  sizes are 0), makes every piece but the last \<open>split_size\<close> long and the last one
  \<open>split_size - (split_size * num_splits - dim_size)\<close> long, and takes piece \<open>i\<close> with
  \<open>narrow (i * split_size) length\<close>. It rejects a negative split size, and a split size
  of 0 on a non-empty tensor.
\<close>

definition get_num_splits :: "nat \<Rightarrow> nat \<Rightarrow> nat" where
  "get_num_splits dim_size split_size =
     (if split_size = 0 then 1
      else max ((dim_size + split_size - 1) div split_size) 1)"

definition narrow :: "'a list \<Rightarrow> nat \<Rightarrow> nat \<Rightarrow> 'a list" where
  "narrow xs start len = take len (drop start xs)"

definition torch_split :: "'a list \<Rightarrow> int \<Rightarrow> py_error + 'a list list" where
  "torch_split xs split_size =
     (if split_size < 0 then Inl SplitSizeError
      else if split_size = 0 \<and> xs \<noteq> [] then Inl SplitSizeError
      else
        let sz = nat split_size;
            num_splits = get_num_splits (length xs) sz;
            last_split_size = sz - (sz * num_splits - length xs)
        in Inr (map (\<lambda>i. narrow xs (i * sz)
                          (if i < num_splits - 1 then sz else last_split_size))
                    [0..<num_splits]))"

subsection \<open>random.shuffle\<close>

text \<open>
  The state of the process-wide generator of module \<open>random\<close> is a stream of raw draws;
  \<open>randbelow n\<close> consumes one draw and returns a number below \<open>n\<close>. \<open>random.shuffle\<close> is
  the loop
  \<^verbatim>\<open>for i in reversed(range(1, len(x))): j = randbelow(i + 1); x[i], x[j] = x[j], x[i]\<close>.
\<close>

type_synonym rng = "nat \<Rightarrow> nat"

definition randbelow :: "rng \<Rightarrow> nat \<Rightarrow> nat \<times> rng" where
  "randbelow r n = (r 0 mod n, \<lambda>i. r (Suc i))"

fun shuffle_from :: "nat \<Rightarrow> rng \<Rightarrow> 'a list \<Rightarrow> 'a list \<times> rng" where
  "shuffle_from 0 r xs = (xs, r)"
| "shuffle_from (Suc i) r xs =
     (let (j, r') = randbelow r (Suc i + 1)
      in shuffle_from i r' (xs[Suc i := xs ! j, j := xs ! Suc i]))"

definition shuffle :: "rng \<Rightarrow> 'a list \<Rightarrow> 'a list \<times> rng" where
  "shuffle r xs = shuffle_from (length xs - 1) r xs"

subsection \<open>CustomBatchSampler\<close>

record sampler =
  batch_size :: int
  indices :: "nat list"
  batch_of_indices :: "nat list list"

definition chunk :: "nat list \<Rightarrow> int \<Rightarrow> py_error + nat list list" where
  "chunk inds chunk_size = torch_split inds chunk_size"

text \<open>\<open>__init__(dataset, batch_size)\<close>; the dataset enters only through \<open>len(dataset)\<close>.\<close>

definition CustomBatchSampler_init :: "nat \<Rightarrow> int \<Rightarrow> py_error + sampler" where
  "CustomBatchSampler_init len_dataset bs =
     ebind (chunk [0..<len_dataset] bs)
       (\<lambda>cs. Inr \<lparr>batch_size = bs, indices = [0..<len_dataset], batch_of_indices = cs\<rparr>)"

text \<open>
  \<open>__iter__\<close> shuffles the list of chunks in place and returns an iterator over it: the
  result is the sequence of chunks the iteration yields, the sampler with its reordered
  list, and the generator state left behind.
\<close>

definition sampler_iter :: "rng \<Rightarrow> sampler \<Rightarrow> nat list list \<times> sampler \<times> rng" where
  "sampler_iter r s =
     (let (cs, r') = shuffle r (batch_of_indices s)
      in (cs, s\<lparr>batch_of_indices := cs\<rparr>, r'))"

definition sampler_len :: "sampler \<Rightarrow> nat" where
  "sampler_len s = length (batch_of_indices s)"

text \<open>
  Successive iterations over one sampler, each begun in some state of the generator:
  the sequences of chunks they yield, in order.
\<close>

fun sampler_passes :: "rng list \<Rightarrow> sampler \<Rightarrow> nat list list list" where
  "sampler_passes [] s = []"
| "sampler_passes (r # rs) s =
     (let (cs, s', r') = sampler_iter r s in cs # sampler_passes rs s')"

section \<open>The dataset and the padding collator (dataset.py)\<close>

type_synonym example = "int list \<times> int list"
type_synonym padded_batch = "int list list \<times> int list list"

text \<open>\<open>TranslationDataset.__getitem__\<close> at an index the sampler produced.\<close>

definition getitem :: "example list \<Rightarrow> nat \<Rightarrow> py_error + example" where
  "getitem ds idx = (if idx < length ds then Inr (ds ! idx) else Inl IndexError)"

text \<open>
  \<open>pad_sequence(sequences, batch_first = True, padding_value = v)\<close>: a tensor with one row
  per sequence, as wide as the longest sequence, every row filled with \<open>v\<close> after its own
  items. An empty list of sequences is refused.
\<close>

definition max_len :: "'a list list \<Rightarrow> nat" where
  "max_len seqs = foldr (\<lambda>s m. max (length s) m) seqs 0"

definition pad_sequence :: "'a list list \<Rightarrow> 'a \<Rightarrow> py_error + 'a list list" where
  "pad_sequence seqs v =
     (if seqs = [] then Inl EmptySequencesError
      else Inr (map (\<lambda>s. s @ replicate (max_len seqs - length s) v) seqs))"

definition pad_collate_fn :: "example list \<Rightarrow> py_error + padded_batch" where
  "pad_collate_fn batch =
     (let src_sentences = map fst batch;
          trg_sentences = map snd batch
      in ebind (pad_sequence src_sentences 0) (\<lambda>src.
         ebind (pad_sequence trg_sentences 0) (\<lambda>trg. Inr (src, trg))))"

text \<open>The shape of a two-dimensional tensor held as a list of rows of one width.\<close>

definition has_shape :: "'a list list \<Rightarrow> nat \<Rightarrow> nat \<Rightarrow> bool" where
  "has_shape t rows cols = (length t = rows \<and> list_all (\<lambda>row. length row = cols) t)"

section \<open>Setting up the data loaders (dataset.py)\<close>

text \<open>
  A \<open>DataLoader\<close> built with a batch sampler and a collate function: iterating it asks the
  sampler for its chunks and turns each chunk into \<open>collate_fn [dataset[i] for i in chunk]\<close>;
  its length is the sampler's.
\<close>

record dataloader =
  dataset :: "example list"
  batch_sampler :: sampler

definition dataloader_len :: "dataloader \<Rightarrow> nat" where
  "dataloader_len dl = sampler_len (batch_sampler dl)"

fun fetch_items :: "example list \<Rightarrow> nat list \<Rightarrow> py_error + example list" where
  "fetch_items ds [] = Inr []"
| "fetch_items ds (i # idxs) =
     ebind (getitem ds i) (\<lambda>x. ebind (fetch_items ds idxs) (\<lambda>xs. Inr (x # xs)))"

definition fetch :: "example list \<Rightarrow> nat list \<Rightarrow> py_error + padded_batch" where
  "fetch ds c = ebind (fetch_items ds c) pad_collate_fn"

definition dataloader_iter :: "rng \<Rightarrow> dataloader \<Rightarrow> nat list list \<times> dataloader \<times> rng" where
  "dataloader_iter r dl =
     (let (cs, smp, r') = sampler_iter r (batch_sampler dl)
      in (cs, dl\<lparr>batch_sampler := smp\<rparr>, r'))"

text \<open>
  The collaborators of the data pipeline that live outside these sources: the corpus
  (already shuffled with the fixed seed), the two tokenizer trainers of module
  \<open>tokenizer\<close>, the tokenizer loader, the tokenizer's \<open>encode\<close>, the random
  train/test split, and the process-wide setting \<open>PRETRAIN_TOKENIZER_PT\<close>.
\<close>

record 'tok pipeline_env =
  corpus :: "(string \<times> string) list"
  get_tokenizer_wordlevel :: "(string \<times> string) list \<Rightarrow> int \<Rightarrow> py_error + 'tok"
  get_tokenizer_bpe :: "(string \<times> string) list \<Rightarrow> int \<Rightarrow> py_error + 'tok"
  tokenizer_from_file :: "string \<Rightarrow> py_error + 'tok"
  tokenizer_encode :: "'tok \<Rightarrow> string \<Rightarrow> int list"
  train_test_split :: "example list \<Rightarrow> real \<Rightarrow> py_error + (example list \<times> example list)"
  PRETRAIN_TOKENIZER_PT :: "string option"

text \<open>\<open>get_dataset\<close>: the first \<open>example_cnt\<close> pairs of the shuffled corpus.\<close>

definition get_dataset :: "(string \<times> string) list \<Rightarrow> int \<Rightarrow> py_error + (string \<times> string) list" where
  "get_dataset corp example_cnt =
     (if int (length corp) < example_cnt then Inl IndexError
      else Inr (take (nat example_cnt) corp))"

definition filter_long_sentences :: "int \<Rightarrow> example \<Rightarrow> bool" where
  "filter_long_sentences mx ex = (int (length (fst ex)) \<le> mx \<and> int (length (snd ex)) \<le> mx)"

text \<open>
  \<open>preprocess_data\<close>: tokenize, drop the pairs with a side longer than \<open>max_len\<close>, split,
  and sort each part by source length, longest first (ties in their given order).
\<close>

definition sort_by_length_src :: "example list \<Rightarrow> example list" where
  "sort_by_length_src exs = sort_key (\<lambda>ex. - int (length (fst ex))) exs"

definition preprocess_data ::
  "'tok pipeline_env \<Rightarrow> (string \<times> string) list \<Rightarrow> 'tok \<Rightarrow> int \<Rightarrow> real
     \<Rightarrow> py_error + (example list \<times> example list)" where
  "preprocess_data env data tokenizer mx test_proportion =
     (let tokenized = map (\<lambda>(src, trg). (tokenizer_encode env tokenizer src,
                                         tokenizer_encode env tokenizer trg)) data;
          kept = filter (filter_long_sentences mx) tokenized
      in ebind (train_test_split env kept test_proportion)
           (\<lambda>(train, test). Inr (sort_by_length_src train, sort_by_length_src test)))"

text \<open>
  \<open>get_translation_dataloaders\<close>. The local variable \<open>tokenizer\<close> is bound by the first
  \<open>if\<close> only for the two known tokenizer types; it is read by \<open>tokenizer.save\<close> when no
  pretrained tokenizer is configured.
\<close>

definition get_translation_dataloaders ::
  "'tok pipeline_env \<Rightarrow> int \<Rightarrow> int \<Rightarrow> string \<Rightarrow> string \<Rightarrow> real \<Rightarrow> int \<Rightarrow> int
     \<Rightarrow> py_error + (dataloader \<times> dataloader)" where
  "get_translation_dataloaders env dataset_size vocab_size tokenizer_type tokenizer_save_pth
       test_proportion bs mx =
     ebind (get_dataset (corpus env) dataset_size) (\<lambda>data.
     ebind (if tokenizer_type = ''wordlevel''
              then ebind (get_tokenizer_wordlevel env data vocab_size) (\<lambda>t. Inr (Some t))
            else if tokenizer_type = ''bpe''
              then ebind (get_tokenizer_bpe env data vocab_size) (\<lambda>t. Inr (Some t))
            else Inr None) (\<lambda>bound.
     ebind (case PRETRAIN_TOKENIZER_PT env of
              Some pth \<Rightarrow> tokenizer_from_file env pth
            | None \<Rightarrow> (case bound of None \<Rightarrow> Inl UnboundLocalError | Some t \<Rightarrow> Inr t))
       (\<lambda>tokenizer.
     ebind (preprocess_data env data tokenizer mx test_proportion) (\<lambda>(train_ds, val_ds).
     ebind (CustomBatchSampler_init (length train_ds) bs) (\<lambda>custom_batcher_train.
     ebind (CustomBatchSampler_init (length val_ds) bs) (\<lambda>custom_batcher_val.
       Inr (\<lparr>dataset = train_ds, batch_sampler = custom_batcher_train\<rparr>,
            \<lparr>dataset = val_ds, batch_sampler = custom_batcher_val\<rparr>)))))))"

section \<open>The training orchestrator (learner.py, Learner)\<close>

subsection \<open>Parameter tensors, state dictionaries and deep copies\<close>

text \<open>
  Parameter tensors live in a store: \<open>cells\<close> maps an address to the tensor's value and
  \<open>next_free\<close> is the first address never handed out. A state dictionary maps a
  parameter name to the address of its tensor, so two dictionaries share a tensor exactly
  when they hold the same address. \<open>copy.deepcopy\<close> gives every tensor it has not met
  yet a new address holding the same value, and remembers the copies it made.
\<close>

type_synonym state_dict = "(string \<times> nat) list"

fun deepcopy_entries ::
  "(nat \<times> nat) list \<Rightarrow> state_dict \<Rightarrow> (nat \<Rightarrow> 'v) \<Rightarrow> nat \<Rightarrow> state_dict \<times> (nat \<Rightarrow> 'v) \<times> nat" where
  "deepcopy_entries memo [] h nf = ([], h, nf)"
| "deepcopy_entries memo ((k, a) # sd) h nf =
     (case map_of memo a of
        Some a' \<Rightarrow>
          (let (sd', h', nf') = deepcopy_entries memo sd h nf
           in ((k, a') # sd', h', nf'))
      | None \<Rightarrow>
          (let (sd', h', nf') = deepcopy_entries ((a, nf) # memo) sd (h(nf := h a)) (Suc nf)
           in ((k, nf) # sd', h', nf')))"

definition deepcopy :: "state_dict \<Rightarrow> (nat \<Rightarrow> 'v) \<Rightarrow> nat \<Rightarrow> state_dict \<times> (nat \<Rightarrow> 'v) \<times> nat" where
  "deepcopy sd h nf = deepcopy_entries [] sd h nf"

text \<open>The values a state dictionary denotes in a store.\<close>

definition sd_values :: "state_dict \<Rightarrow> (nat \<Rightarrow> 'v) \<Rightarrow> (string \<times> 'v) list" where
  "sd_values sd h = map (\<lambda>(k, a). (k, h a)) sd"

subsection \<open>What the orchestrator records and what it calls\<close>

datatype split_name = Train | Validation

type_synonym row = "int \<times> split_name \<times> string \<times> string \<times> string"

datatype log_record =
    ValidationLoss int pyfloat         \<comment> \<open>Epoch, Validation/Loss\<close>
  | ValidationSummary int pyfloat pyfloat \<comment> \<open>Epoch, Validation/BLEU, Validation/Avg_loss\<close>
  | TrainLoss int nat pyfloat          \<comment> \<open>Epoch, Batch, Train/Loss\<close>
  | TrainAvgLoss int pyfloat           \<comment> \<open>Epoch, Train/Avg_loss\<close>

text \<open>
  The calls made on the optimizer, the scheduler, the checkpoint saver and the metrics
  backend, in the order they are made. \<open>Backward e i\<close> is the backward pass of batch \<open>i\<close>
  of epoch \<open>e\<close>; \<open>OptimizerStep g\<close> is an optimizer step taken while the gradient buffers
  hold the contributions \<open>g\<close>; \<open>WandbLog rec st\<close> is \<open>wandb.log(rec, step = st)\<close>.
\<close>

datatype event =
    Backward int nat
  | OptimizerStep "(int \<times> nat) list"
  | SchedulerStep
  | ZeroGrad
  | WandbLog log_record int
  | WandbLogTable "row list"
  | CheckpointSave int pyfloat

record config =
  GRAD_ACCUMULATION_STEPS :: int
  MODEL_SAVE_EPOCH_CNT :: int

text \<open>
  The external collaborators: the model's forward pass followed by the loss function
  (the value of \<open>loss.item()\<close>, from the training flag, the live parameter values and
  the batch), the optimizer's update of one parameter from the accumulated gradient
  contributions, the corpus-level score of the validation pass, the tokenizer's
  \<open>decode\<close> and the model's \<open>translate\<close>; with them the rounding of the platform's
  float arithmetic.
\<close>

record 'v collab =
  forward_loss :: "bool \<Rightarrow> (string \<times> 'v) list \<Rightarrow> padded_batch \<Rightarrow> pyfloat"
  optimizer_update :: "(int \<times> nat) list \<Rightarrow> string \<Rightarrow> 'v \<Rightarrow> 'v"
  corpus_bleu :: "(string \<times> 'v) list \<Rightarrow> padded_batch list \<Rightarrow> pyfloat"
  tokenizer_decode :: "int list \<Rightarrow> string"
  model_translate :: "(string \<times> 'v) list \<Rightarrow> string \<Rightarrow> string"
  float_round :: "real \<Rightarrow> pyfloat"

text \<open>
  The fields of a \<open>Learner\<close>, with the model's live state dictionary and training flag,
  the store, the gradient contributions accumulated since the last reset, the state of
  module \<open>random\<close>, and the record of calls made so far. \<open>best_val_loss\<close> starts as
  \<open>float('inf')\<close>; \<open>table\<close> is \<open>None\<close> until \<open>fit\<close> creates it.
\<close>

record 'v learner =
  config :: config
  model_sd :: state_dict
  model_training :: bool
  cells :: "nat \<Rightarrow> 'v"
  next_free :: nat
  grad_pending :: "(int \<times> nat) list"
  train_dataloader :: dataloader
  val_dataloader :: dataloader
  has_scheduler :: bool
  training_step :: int
  global_step :: int
  best_val_loss :: pyfloat
  best_model_state_dict :: state_dict
  table :: "row list option"
  rng_state :: rng
  trace :: "event list"

definition Learner_init ::
  "config \<Rightarrow> state_dict \<Rightarrow> (nat \<Rightarrow> 'v) \<Rightarrow> nat \<Rightarrow> dataloader \<Rightarrow> dataloader \<Rightarrow> bool \<Rightarrow> rng
     \<Rightarrow> 'v learner" where
  "Learner_init cfg sd h nf train_dl val_dl sched r =
     (let (best, h', nf') = deepcopy sd h nf
      in \<lparr>config = cfg, model_sd = sd, model_training = True, cells = h', next_free = nf',
          grad_pending = [], train_dataloader = train_dl, val_dataloader = val_dl,
          has_scheduler = sched, training_step = 1, global_step = 1,
          best_val_loss = PosInf, best_model_state_dict = best, table = None,
          rng_state = r, trace = []\<rparr>)"

definition model_values :: "'v learner \<Rightarrow> (string \<times> 'v) list" where
  "model_values s = sd_values (model_sd s) (cells s)"

definition py_mod :: "int \<Rightarrow> int \<Rightarrow> py_error + int" where
  "py_mod a b = (if b = 0 then Inl ZeroDivisionError else Inr (a mod b))"

definition log_event :: "event \<Rightarrow> 'v learner \<Rightarrow> 'v learner" where
  "log_event ev s = s\<lparr>trace := trace s @ [ev]\<rparr>"

subsection \<open>track_example\<close>

text \<open>\<open>next(iter(dataloader))\<close>: a fresh iteration (which reshuffles the chunks) and its first batch.\<close>

definition first_batch :: "rng \<Rightarrow> dataloader \<Rightarrow> py_error + (padded_batch \<times> dataloader \<times> rng)" where
  "first_batch r dl =
     (let (cs, dl', r') = dataloader_iter r dl
      in case cs of
           [] \<Rightarrow> Inl StopIteration
         | c # _ \<Rightarrow> ebind (fetch (dataset dl') c) (\<lambda>b. Inr (b, dl', r')))"

text \<open>
  The loop \<^verbatim>\<open>for i in range(input.size(0)): if i == num_examples: break; ...\<close> over
  the rows of a batch, giving the rows it adds to the table.
\<close>

fun track_rows ::
  "'v collab \<Rightarrow> (string \<times> 'v) list \<Rightarrow> int \<Rightarrow> split_name \<Rightarrow> int \<Rightarrow> int
     \<Rightarrow> (int list \<times> int list) list \<Rightarrow> row list" where
  "track_rows c vals epoch sp num_examples i [] = []"
| "track_rows c vals epoch sp num_examples i ((enc, dec) # rest) =
     (if i = num_examples then []
      else
        (let source_text = tokenizer_decode c enc;
             target_text = tokenizer_decode c dec;
             predicted_text = model_translate c vals source_text
         in (epoch, sp, source_text, target_text, predicted_text)
              # track_rows c vals epoch sp num_examples (i + 1) rest))"

definition table_add_data :: "row list \<Rightarrow> 'v learner \<Rightarrow> py_error + 'v learner" where
  "table_add_data rows s =
     (if rows = [] then Inr s
      else case table s of
             None \<Rightarrow> Inl AttributeError
           | Some t \<Rightarrow> Inr (s\<lparr>table := Some (t @ rows)\<rparr>))"

definition track_example :: "'v collab \<Rightarrow> int \<Rightarrow> int \<Rightarrow> 'v learner \<Rightarrow> py_error + 'v learner" where
  "track_example c epoch num_examples s =
     (let s0 = s\<lparr>model_training := False\<rparr>
      in ebind (first_batch (rng_state s0) (train_dataloader s0)) (\<lambda>(train_batch, tdl, r1).
         ebind (table_add_data
                  (track_rows c (model_values s0) epoch Train num_examples 0
                     (zip (fst train_batch) (snd train_batch)))
                  (s0\<lparr>train_dataloader := tdl, rng_state := r1\<rparr>)) (\<lambda>s1.
         ebind (first_batch (rng_state s1) (val_dataloader s1)) (\<lambda>(val_batch, vdl, r2).
         table_add_data
           (track_rows c (model_values s1) epoch Validation num_examples 0
              (zip (fst val_batch) (snd val_batch)))
           (s1\<lparr>val_dataloader := vdl, rng_state := r2\<rparr>)))))"

subsection \<open>validation_epoch\<close>

text \<open>
  The batch loop; \<open>seen\<close> collects the batches whose predictions and targets the
  corpus-level score is computed from.
\<close>

fun validation_loop ::
  "'v collab \<Rightarrow> int \<Rightarrow> nat list list \<Rightarrow> pyfloat \<Rightarrow> padded_batch list \<Rightarrow> 'v learner
     \<Rightarrow> py_error + (pyfloat \<times> padded_batch list \<times> 'v learner)" where
  "validation_loop c epoch [] loss_sum seen s = Inr (loss_sum, seen, s)"
| "validation_loop c epoch (ch # chs) loss_sum seen s =
     ebind (fetch (dataset (val_dataloader s)) ch) (\<lambda>batch.
       let loss = forward_loss c (model_training s) (model_values s) batch;
           s1 = log_event (WandbLog (ValidationLoss epoch loss) (global_step s)) s;
           s2 = s1\<lparr>global_step := global_step s1 + 1\<rparr>
       in validation_loop c epoch chs (py_add (float_round c) loss_sum loss) (seen @ [batch]) s2)"

definition validation_epoch :: "'v collab \<Rightarrow> int \<Rightarrow> 'v learner \<Rightarrow> py_error + 'v learner" where
  "validation_epoch c epoch s =
     (let s0 = s\<lparr>model_training := False\<rparr>;
          (chs, vdl, r') = dataloader_iter (rng_state s0) (val_dataloader s0);
          s1 = s0\<lparr>val_dataloader := vdl, rng_state := r'\<rparr>
      in ebind (validation_loop c epoch chs (Finite 0) [] s1) (\<lambda>(loss_sum, seen, s2).
         ebind (py_truediv (float_round c) loss_sum (dataloader_len (val_dataloader s2)))
           (\<lambda>loss_avg.
           let bleu_score = corpus_bleu c (model_values s2) seen;
               s3 = log_event (WandbLog (ValidationSummary epoch bleu_score loss_avg)
                                        (global_step s2)) s2
           in Inr (s3\<lparr>global_step := global_step s3 + 1\<rparr>))))"

subsection \<open>training_epoch\<close>

definition optimizer_step :: "'v collab \<Rightarrow> 'v learner \<Rightarrow> 'v learner" where
  "optimizer_step c s =
     log_event (OptimizerStep (grad_pending s))
       (s\<lparr>cells := fold (\<lambda>(k, a) h. h(a := optimizer_update c (grad_pending s) k (h a)))
                        (model_sd s) (cells s)\<rparr>)"

definition scheduler_step :: "'v learner \<Rightarrow> 'v learner" where
  "scheduler_step s = log_event SchedulerStep s"

definition optimizer_zero_grad :: "'v learner \<Rightarrow> 'v learner" where
  "optimizer_zero_grad s = log_event ZeroGrad (s\<lparr>grad_pending := []\<rparr>)"

definition loss_backward :: "int \<Rightarrow> nat \<Rightarrow> 'v learner \<Rightarrow> 'v learner" where
  "loss_backward epoch batch_idx s =
     log_event (Backward epoch batch_idx)
       (s\<lparr>grad_pending := grad_pending s @ [(epoch, batch_idx)]\<rparr>)"

text \<open>The body of the batch loop, from the forward pass to the two counter increments.\<close>

definition training_batch ::
  "'v collab \<Rightarrow> int \<Rightarrow> nat \<Rightarrow> padded_batch \<Rightarrow> pyfloat \<Rightarrow> 'v learner
     \<Rightarrow> py_error + (pyfloat \<times> 'v learner)" where
  "training_batch c epoch batch_idx batch loss_sum s =
     (let loss = forward_loss c (model_training s) (model_values s) batch;
          s1 = loss_backward epoch batch_idx s
      in ebind (py_mod (training_step s1) (GRAD_ACCUMULATION_STEPS (config s1))) (\<lambda>m.
           let s2 = (if m = 0
                     then (let s' = optimizer_step c s1;
                               s'' = (if has_scheduler s' then scheduler_step s' else s')
                           in optimizer_zero_grad s'')
                     else s1);
               s3 = log_event (WandbLog (TrainLoss epoch batch_idx loss) (global_step s2)) s2;
               s4 = s3\<lparr>global_step := global_step s3 + 1\<rparr>;
               s5 = s4\<lparr>training_step := training_step s4 + 1\<rparr>
           in Inr (py_add (float_round c) loss_sum loss, s5)))"

fun training_loop ::
  "'v collab \<Rightarrow> int \<Rightarrow> nat \<Rightarrow> nat list list \<Rightarrow> pyfloat \<Rightarrow> 'v learner
     \<Rightarrow> py_error + (pyfloat \<times> 'v learner)" where
  "training_loop c epoch batch_idx [] loss_sum s = Inr (loss_sum, s)"
| "training_loop c epoch batch_idx (ch # chs) loss_sum s =
     ebind (fetch (dataset (train_dataloader s)) ch) (\<lambda>batch.
     ebind (training_batch c epoch batch_idx batch loss_sum s) (\<lambda>(loss_sum', s').
       training_loop c epoch (Suc batch_idx) chs loss_sum' s'))"

text \<open>
  The end of \<open>training_epoch\<close>: when \<open>loss_avg < self.best_val_loss\<close>, replace the
  best-model snapshot by a deep copy.
\<close>

definition save_best_model :: "pyfloat \<Rightarrow> 'v learner \<Rightarrow> 'v learner" where
  "save_best_model loss_avg s =
     (if py_lt loss_avg (best_val_loss s)
      then (let (best, h', nf') = deepcopy (model_sd s) (cells s) (next_free s)
            in s\<lparr>best_val_loss := loss_avg, best_model_state_dict := best,
                 cells := h', next_free := nf'\<rparr>)
      else s)"

definition training_epoch :: "'v collab \<Rightarrow> int \<Rightarrow> 'v learner \<Rightarrow> py_error + 'v learner" where
  "training_epoch c epoch s =
     (let s0 = s\<lparr>model_training := True\<rparr>;
          (chs, tdl, r') = dataloader_iter (rng_state s0) (train_dataloader s0);
          s1 = s0\<lparr>train_dataloader := tdl, rng_state := r'\<rparr>
      in ebind (training_loop c epoch 0 chs (Finite 0) s1) (\<lambda>(loss_sum, s2).
         ebind (py_truediv (float_round c) loss_sum (dataloader_len (train_dataloader s2)))
           (\<lambda>loss_avg.
           let s3 = log_event (WandbLog (TrainAvgLoss epoch loss_avg) (global_step s2)) s2;
               s4 = s3\<lparr>global_step := global_step s3 + 1\<rparr>
           in ebind (py_mod epoch (MODEL_SAVE_EPOCH_CNT (config s4))) (\<lambda>m.
                let s5 = (if m = 0 then log_event (CheckpointSave epoch loss_avg) s4 else s4)
                in Inr (save_best_model loss_avg s5)))))"

subsection \<open>fit\<close>

fun fit_loop :: "'v collab \<Rightarrow> int list \<Rightarrow> 'v learner \<Rightarrow> py_error + 'v learner" where
  "fit_loop c [] s = Inr s"
| "fit_loop c (epoch_idx # rest) s =
     ebind (track_example c epoch_idx 2 s) (\<lambda>s1.
     ebind (validation_epoch c epoch_idx s1) (\<lambda>s2.
     ebind (training_epoch c epoch_idx s2) (\<lambda>s3.
       fit_loop c rest s3)))"

definition fit :: "'v collab \<Rightarrow> int \<Rightarrow> int \<Rightarrow> 'v learner \<Rightarrow> py_error + 'v learner" where
  "fit c start_epoch n_epochs s =
     (let s0 = s\<lparr>table := Some []\<rparr>
      in ebind (fit_loop c [start_epoch..start_epoch + n_epochs - 1] s0) (\<lambda>s1.
           case table s1 of
             None \<Rightarrow> Inl AttributeError
           | Some t \<Rightarrow> Inr (log_event (WandbLogTable t) s1)))"

section \<open>Well-formed states and observations\<close>

text \<open>
  The chunks of a sampler fit a dataset when there is at least one chunk, no chunk is
  empty and every index is within the dataset. This is what the constructor gives for
  a non-empty dataset and a batch size of at least 1, and shuffling keeps it.
\<close>

definition chunks_ok :: "example list \<Rightarrow> nat list list \<Rightarrow> bool" where
  "chunks_ok ds cs =
     (cs \<noteq> [] \<and> list_all (\<lambda>c. c \<noteq> [] \<and> list_all (\<lambda>i. i < length ds) c) cs)"

definition dataloader_ok :: "dataloader \<Rightarrow> bool" where
  "dataloader_ok dl = chunks_ok (dataset dl) (batch_of_indices (batch_sampler dl))"

text \<open>
  A learner whose two loaders are well formed and whose two configured divisors
  (gradient-accumulation factor, checkpoint cadence) are not zero.
\<close>

definition learner_ok :: "'v learner \<Rightarrow> bool" where
  "learner_ok s =
     (dataloader_ok (train_dataloader s) \<and> dataloader_ok (val_dataloader s)
      \<and> GRAD_ACCUMULATION_STEPS (config s) \<noteq> 0 \<and> MODEL_SAVE_EPOCH_CNT (config s) \<noteq> 0)"

text \<open>
  The store is well formed when every tensor of the live model and of the snapshot has
  been allocated, and the two share no tensor.
\<close>

definition store_ok :: "'v learner \<Rightarrow> bool" where
  "store_ok s =
     (list_all (\<lambda>(k, a). a < next_free s) (model_sd s)
      \<and> list_all (\<lambda>(k, a). a < next_free s) (best_model_state_dict s)
      \<and> list_all (\<lambda>(k, a). a \<notin> snd ` set (model_sd s)) (best_model_state_dict s))"

text \<open>The parameter values the retained best-model snapshot denotes.\<close>

definition snapshot_values :: "'v learner \<Rightarrow> (string \<times> 'v) list" where
  "snapshot_values s = sd_values (best_model_state_dict s) (cells s)"

text \<open>The step indices passed to \<open>wandb.log\<close>, in call order, and the table flushes.\<close>

fun log_steps :: "event list \<Rightarrow> int list" where
  "log_steps [] = []"
| "log_steps (WandbLog rec st # evs) = st # log_steps evs"
| "log_steps (ev # evs) = log_steps evs"

fun table_flushes :: "event list \<Rightarrow> row list list" where
  "table_flushes [] = []"
| "table_flushes (WandbLogTable t # evs) = t # table_flushes evs"
| "table_flushes (ev # evs) = table_flushes evs"

text \<open>
  \<open>loader_shuffled dl dl'\<close>: \<open>dl'\<close> is \<open>dl\<close> with the chunks of its sampler in some other
  order. \<open>setup_same s s'\<close>: the two learner states have the same configuration, the same
  model dictionary and the same loaders up to the order of their chunks.
\<close>

definition loader_shuffled :: "dataloader \<Rightarrow> dataloader \<Rightarrow> bool" where
  "loader_shuffled dl dl' =
     (dataset dl' = dataset dl
      \<and> mset (batch_of_indices (batch_sampler dl')) = mset (batch_of_indices (batch_sampler dl)))"

definition setup_same :: "'v learner \<Rightarrow> 'v learner \<Rightarrow> bool" where
  "setup_same s s' =
     (config s' = config s \<and> has_scheduler s' = has_scheduler s \<and> model_sd s' = model_sd s
      \<and> loader_shuffled (train_dataloader s) (train_dataloader s')
      \<and> loader_shuffled (val_dataloader s) (val_dataloader s'))"

text \<open>The epoch averages and the batch losses passed to \<open>wandb.log\<close> by the training pass.\<close>

fun train_avg_losses :: "event list \<Rightarrow> (int \<times> pyfloat) list" where
  "train_avg_losses [] = []"
| "train_avg_losses (WandbLog (TrainAvgLoss e l) st # evs) = (e, l) # train_avg_losses evs"
| "train_avg_losses (ev # evs) = train_avg_losses evs"

fun train_batch_losses :: "event list \<Rightarrow> pyfloat list" where
  "train_batch_losses [] = []"
| "train_batch_losses (WandbLog (TrainLoss e i l) st # evs) = l # train_batch_losses evs"
| "train_batch_losses (ev # evs) = train_batch_losses evs"

section \<open>The training pass as the specification describes it\<close>

text \<open>
  The calls the specification prescribes for the batches of a training pass, written
  from its words and not from the code: for every batch a backward pass; then, only
  when \<open>training_step\<close> is a multiple of the accumulation factor \<open>k\<close>, an optimizer step
  (over everything accumulated, this batch included), a scheduler step if there is a
  scheduler, and a gradient reset; then the batch loss logged at the global step; both
  counters advance by 1 per batch. The arguments are the factor, the scheduler flag,
  the epoch, \<open>training_step\<close> and \<open>global_step\<close> before the batch, the index of the
  batch, the losses of the batches still to run, and the contributions pending.
\<close>

fun expected_training_events ::
  "int \<Rightarrow> bool \<Rightarrow> int \<Rightarrow> int \<Rightarrow> int \<Rightarrow> nat \<Rightarrow> pyfloat list \<Rightarrow> (int \<times> nat) list
     \<Rightarrow> event list" where
  "expected_training_events k sched epoch ts gs j [] pending = []"
| "expected_training_events k sched epoch ts gs j (loss # losses) pending =
     [Backward epoch j]
     @ (if k dvd ts
        then [OptimizerStep (pending @ [(epoch, j)])]
             @ (if sched then [SchedulerStep] else []) @ [ZeroGrad]
        else [])
     @ [WandbLog (TrainLoss epoch j loss) gs]
     @ expected_training_events k sched epoch (ts + 1) (gs + 1) (Suc j) losses
         (if k dvd ts then [] else pending @ [(epoch, j)])"

section \<open>Concrete inputs\<close>

text \<open>
  A small instance on which the functions above can be run: a model with one parameter
  tensor whose value counts the optimizer steps taken, a loss that depends on that
  value only (2.0, 1.5, 1.8, 1.2 and then 1.3), a tokenizer that decodes the ids
  0 to 9 to their digits, a float rounding that changes nothing (in the runs whose
  float values are stated below every sum and quotient is exact, and the loss values
  stand for the floats nearest to them, which are in the same order), two small
  datasets, and a learner over given loaders with a given gradient-accumulation
  factor.
\<close>

definition demo_loss :: "nat \<Rightarrow> pyfloat" where
  "demo_loss v = Finite (if v = 0 then 2.0 else if v = 1 then 1.5 else if v = 2 then 1.8
                         else if v = 3 then 1.2 else 1.3)"

definition demo_collab :: "nat collab" where
  "demo_collab =
     \<lparr>forward_loss = (\<lambda>training vals batch. demo_loss (sum_list (map snd vals))),
      optimizer_update = (\<lambda>grads name v. v + 1),
      corpus_bleu = (\<lambda>vals batches. Finite 0),
      tokenizer_decode = (\<lambda>ids. map (\<lambda>i. char_of (i + 48)) ids),
      model_translate = (\<lambda>vals text. text),
      float_round = Finite\<rparr>"

definition demo_loader :: "example list \<Rightarrow> int \<Rightarrow> nat list list \<Rightarrow> dataloader" where
  "demo_loader ds bs cs =
     \<lparr>dataset = ds,
      batch_sampler = \<lparr>batch_size = bs, indices = [0..<length ds], batch_of_indices = cs\<rparr>\<rparr>"

definition demo_learner :: "int \<Rightarrow> dataloader \<Rightarrow> dataloader \<Rightarrow> nat learner" where
  "demo_learner k train_dl val_dl =
     Learner_init \<lparr>GRAD_ACCUMULATION_STEPS = k, MODEL_SAVE_EPOCH_CNT = 2\<rparr>
       [(''weight'', 0)] (\<lambda>a. 0) 1 train_dl val_dl True (\<lambda>i. i)"

definition demo_ds3 :: "example list" where
  "demo_ds3 = [([5, 6, 7], [1, 8, 2]), ([5, 6], [1, 9, 2]), ([4], [1, 2])]"

definition demo_ds1 :: "example list" where
  "demo_ds1 = [([5, 6, 7], [1, 8, 2])]"

text \<open>
  A data pipeline whose split collaborator behaves as the library's split does under
  the identity permutation: an empty input gives two empty partitions; otherwise a
  proportion outside \<open>(0, 1)\<close> is refused, the first \<open>ceil (proportion * n)\<close> rows go
  to the test partition and the rest to the training partition, which it refuses to
  leave empty.
\<close>

definition demo_split :: "example list \<Rightarrow> real \<Rightarrow> py_error + (example list \<times> example list)" where
  "demo_split rows test_size =
     (if rows = [] then Inr ([], [])
      else if test_size \<le> 0 \<or> 1 \<le> test_size then Inl ValueError
      else
        let n_test = nat \<lceil>test_size * real (length rows)\<rceil>;
            n_train = length rows - n_test
        in if n_train = 0 then Inl ValueError
           else Inr (drop n_test rows, take n_test rows))"


section \<open>Properties of the batch sampler\<close>

lemma ceil_div_bounds:
  fixes n sz :: nat
  assumes "0 < sz"
  shows "n \<le> ((n + sz - 1) div sz) * sz" and "((n + sz - 1) div sz) * sz < n + sz"
proof -
  let ?m = "n + sz - 1"
  have e: "?m = (?m div sz) * sz + ?m mod sz" by simp
  have l: "?m mod sz < sz" using assms by simp
  show "n \<le> (?m div sz) * sz" using e l assms by linarith
  show "(?m div sz) * sz < n + sz" using e assms by linarith
qed

lemma ceil_div_ceiling:
  fixes n sz :: nat
  assumes "0 < sz"
  shows "(n + sz - 1) div sz = nat \<lceil>real n / real sz\<rceil>"
proof -
  let ?q = "(n + sz - 1) div sz"
  have "\<lceil>real n / real sz\<rceil> = int ?q"
  proof (rule ceiling_unique)
    have "real (?q * sz) < real (n + sz)"
      using ceil_div_bounds(2)[OF assms, of n] by (simp only: of_nat_less_iff)
    then have "(real ?q - 1) * real sz < real n" by (simp add: algebra_simps)
    then show "real_of_int (int ?q) - 1 < real n / real sz"
      using assms by (simp add: pos_less_divide_eq)
    have "real n \<le> real (?q * sz)"
      using ceil_div_bounds(1)[OF assms, of n] by (simp only: of_nat_le_iff)
    then show "real n / real sz \<le> real_of_int (int ?q)"
      using assms by (simp add: pos_divide_le_eq)
  qed
  then show ?thesis by simp
qed

lemma get_num_splits_ceiling:
  "0 < sz \<Longrightarrow> get_num_splits n sz = max 1 (nat \<lceil>real n / real sz\<rceil>)"
  using ceil_div_ceiling[of sz n] by (simp add: get_num_splits_def max.commute)

lemma get_num_splits_pos: "0 < get_num_splits n sz"
  by (simp add: get_num_splits_def max_def)

lemma get_num_splits_covers: "0 < sz \<Longrightarrow> n \<le> get_num_splits n sz * sz"
  using ceil_div_bounds(1)[of sz n]
  by (auto simp: get_num_splits_def max_def intro: order_trans)

lemma get_num_splits_tight:
  assumes "0 < sz" "0 < n"
  shows "(get_num_splits n sz - 1) * sz < n"
proof -
  let ?q = "(n + sz - 1) div sz"
  have "?q * sz < n + sz" by (rule ceil_div_bounds(2)[OF assms(1)])
  moreover have "0 < ?q" using ceil_div_bounds(1)[OF assms(1), of n] assms(2) by (cases ?q) auto
  ultimately have "(?q - 1) * sz < n" by (cases ?q) (auto simp: algebra_simps)
  moreover have "get_num_splits n sz = ?q" using \<open>0 < ?q\<close> assms by (simp add: get_num_splits_def max_def)
  ultimately show ?thesis by simp
qed

text \<open>Every piece is the slice of at most sz items starting at i * sz.\<close>

lemma torch_split_slices:
  assumes "1 \<le> bs"
  shows "torch_split xs bs =
           Inr (map (\<lambda>i. take (nat bs) (drop (i * nat bs) xs)) [0..<get_num_splits (length xs) (nat bs)])"
proof -
  let ?sz = "nat bs" and ?n = "get_num_splits (length xs) (nat bs)"
  have sz: "0 < ?sz" using assms by simp
  have last: "take (?sz - (?sz * ?n - length xs)) (drop ((?n - 1) * ?sz) xs)
                = take ?sz (drop ((?n - 1) * ?sz) xs)"
  proof (cases "xs = []")
    case True then show ?thesis by simp
  next
    case False
    then have t: "(?n - 1) * ?sz < length xs" using get_num_splits_tight[OF sz] by simp
    have c: "length xs \<le> ?n * ?sz" by (rule get_num_splits_covers[OF sz])
    have p: "0 < ?n" by (rule get_num_splits_pos)
    have "?n * ?sz = (?n - 1) * ?sz + ?sz" using p by (cases ?n) auto
    then have "length xs - (?n - 1) * ?sz \<le> ?sz - (?sz * ?n - length xs)"
      using t c by (simp add: mult.commute)
    moreover have "length xs - (?n - 1) * ?sz \<le> ?sz" using c \<open>?n * ?sz = (?n - 1) * ?sz + ?sz\<close> by linarith
    ultimately show ?thesis by simp
  qed
  have "map (\<lambda>i. narrow xs (i * ?sz) (if i < ?n - 1 then ?sz else ?sz - (?sz * ?n - length xs))) [0..<?n]
        = map (\<lambda>i. take ?sz (drop (i * ?sz) xs)) [0..<?n]"
  proof (rule map_cong[OF refl])
    fix i assume "i \<in> set [0..<?n]"
    then have "i < ?n - 1 \<or> i = ?n - 1" by auto
    then show "narrow xs (i * ?sz) (if i < ?n - 1 then ?sz else ?sz - (?sz * ?n - length xs))
               = take ?sz (drop (i * ?sz) xs)"
      using last by (auto simp: narrow_def)
  qed
  then show ?thesis using assms by (simp add: torch_split_def Let_def)
qed

lemma concat_slices: "concat (map (\<lambda>i. take sz (drop (i * sz) xs)) [0..<n]) = take (n * sz) xs"
proof (induction n)
  case 0 then show ?case by simp
next
  case (Suc n)
  have "take (Suc n * sz) xs = take (n * sz + sz) xs" by (simp add: add.commute)
  also have "\<dots> = take (n * sz) xs @ take sz (drop (n * sz) xs)" by (rule take_add)
  finally show ?case using Suc by simp
qed

lemma slice_upt: "take sz (drop (i * sz) [0..<n]) = [i * sz..<min n (i * sz + sz)]"
  by (cases "i * sz + sz \<le> n") (simp_all add: min_def)

lemma randbelow_less: "0 < n \<Longrightarrow> fst (randbelow r n) < n"
  by (simp add: randbelow_def)

lemma shuffle_from_mset:
  "i < length xs \<Longrightarrow> mset (fst (shuffle_from i r xs)) = mset xs"
proof (induction i arbitrary: r xs)
  case 0 then show ?case by simp
next
  case (Suc i)
  obtain j r' where jr: "randbelow r (Suc i + 1) = (j, r')" by (cases "randbelow r (Suc i + 1)")
  have "j < Suc i + 1" using randbelow_less[of "Suc i + 1" r] jr by simp
  then have j: "j < length xs" using Suc.prems by simp
  let ?ys = "xs[Suc i := xs ! j, j := xs ! Suc i]"
  have m: "mset ?ys = mset xs" using mset_swap[of j xs "Suc i"] Suc.prems j by simp
  have "i < length ?ys" using Suc.prems by simp
  then have "mset (fst (shuffle_from i r' ?ys)) = mset ?ys" by (rule Suc.IH)
  then show ?case using jr m by simp
qed

lemma shuffle_mset: "mset (fst (shuffle r xs)) = mset xs"
proof (cases "xs = []")
  case True then show ?thesis by (simp add: shuffle_def)
next
  case False
  then have "length xs - 1 < length xs" by (cases xs) auto
  then show ?thesis unfolding shuffle_def by (rule shuffle_from_mset)
qed

lemma shuffle_set: "set (fst (shuffle r xs)) = set xs"
  using shuffle_mset[of r xs] by (metis set_mset_mset)

lemma shuffle_length: "length (fst (shuffle r xs)) = length xs"
  using shuffle_mset[of r xs] by (metis size_mset)

lemma sampler_iter_chunks:
  "sampler_iter r s = (cs, s', r') \<Longrightarrow>
     mset cs = mset (batch_of_indices s) \<and> batch_of_indices s' = cs \<and>
     batch_size s' = batch_size s \<and> indices s' = indices s"
  using shuffle_mset[of r "batch_of_indices s"]
  by (auto simp: sampler_iter_def split: prod.splits)

lemma init_chunks:
  assumes "1 \<le> bs"
  shows "CustomBatchSampler_init n bs =
           Inr \<lparr>batch_size = bs, indices = [0..<n],
                batch_of_indices = map (\<lambda>i. [i * nat bs..<min n (i * nat bs + nat bs)])
                                       [0..<max 1 (nat \<lceil>real n / real (nat bs)\<rceil>)]\<rparr>"
proof -
  have "0 < nat bs" using assms by simp
  then have n: "get_num_splits n (nat bs) = max 1 (nat \<lceil>real n / real (nat bs)\<rceil>)"
    by (rule get_num_splits_ceiling)
  have "torch_split [0..<n] bs =
          Inr (map (\<lambda>i. [i * nat bs..<min n (i * nat bs + nat bs)]) [0..<get_num_splits n (nat bs)])"
    using torch_split_slices[OF assms, of "[0..<n]"] by (simp only: slice_upt length_upt diff_zero)
  then show ?thesis
    by (simp only: CustomBatchSampler_init_def chunk_def ebind_def n sum.case)
qed

lemma init_concat:
  assumes "1 \<le> bs" and "CustomBatchSampler_init n bs = Inr s"
  shows "concat (batch_of_indices s) = [0..<n]"
proof -
  have sz: "0 < nat bs" using assms by simp
  have "batch_of_indices s = map (\<lambda>i. take (nat bs) (drop (i * nat bs) [0..<n])) [0..<get_num_splits n (nat bs)]"
    using assms(2) torch_split_slices[OF assms(1), of "[0..<n]"]
    by (auto simp: CustomBatchSampler_init_def chunk_def ebind_def)
  then have "concat (batch_of_indices s) = take (get_num_splits n (nat bs) * nat bs) [0..<n]"
    by (simp only: concat_slices)
  also have "\<dots> = [0..<n]" using get_num_splits_covers[OF sz, of n] by simp
  finally show ?thesis .
qed

lemma mset_concat_image: "mset (concat xss) = sum_mset (image_mset mset (mset xss))"
  by (induction xss) simp_all

lemma mset_concat_cong: "mset xss = mset yss \<Longrightarrow> mset (concat xss) = mset (concat yss)"
  by (simp add: mset_concat_image)

lemma init_ceiling_pos:
  assumes "1 \<le> bs" "0 < n"
  shows "max 1 (nat \<lceil>real n / real (nat bs)\<rceil>) = nat \<lceil>real n / real_of_int bs\<rceil>"
proof -
  have "0 < real n / real_of_int bs" using assms by simp
  then have "0 < \<lceil>real n / real_of_int bs\<rceil>" by simp
  then have "1 \<le> nat \<lceil>real n / real_of_int bs\<rceil>" by linarith
  then have "max 1 (nat \<lceil>real n / real_of_int bs\<rceil>) = nat \<lceil>real n / real_of_int bs\<rceil>"
    by (rule max_absorb2)
  moreover have "real (nat bs) = real_of_int bs" using assms by simp
  ultimately show ?thesis by (simp only:)
qed

text \<open>
  C1 (as amended). For every partition size \<open>n\<close> and every batch size of at least 1,
  constructing the sampler succeeds; chunk \<open>i\<close> is the contiguous range of indices from
  \<open>i * batch_size\<close> up to \<open>min n (i * batch_size + batch_size)\<close>; the chunks in
  construction order concatenate to \<open>[0, n)\<close>; the sampler reports
  \<open>ceil (n / batch_size)\<close> batches when \<open>n > 0\<close> and one (empty) batch when \<open>n = 0\<close>;
  and an iteration, in whatever state the generator is, yields each chunk exactly once,
  so that it visits every index of \<open>[0, n)\<close> exactly once.
\<close>

theorem sampler_partition:
  assumes "1 \<le> bs"
  shows "\<exists>s. CustomBatchSampler_init n bs = Inr s
           \<and> batch_of_indices s
               = map (\<lambda>i. [i * nat bs..<min n (i * nat bs + nat bs)]) [0..<sampler_len s]
           \<and> concat (batch_of_indices s) = [0..<n]
           \<and> sampler_len s = (if n = 0 then 1 else nat \<lceil>real n / real_of_int bs\<rceil>)
           \<and> (\<forall>r. mset (fst (sampler_iter r s)) = mset (batch_of_indices s)
                  \<and> mset (concat (fst (sampler_iter r s))) = mset [0..<n]
                  \<and> distinct (concat (fst (sampler_iter r s))))"
proof -
  let ?k = "max 1 (nat \<lceil>real n / real (nat bs)\<rceil>)"
  let ?cs = "map (\<lambda>i. [i * nat bs..<min n (i * nat bs + nat bs)]) [0..<?k]"
  let ?s = "\<lparr>batch_size = bs, indices = [0..<n], batch_of_indices = ?cs\<rparr>"
  have i: "CustomBatchSampler_init n bs = Inr ?s" by (rule init_chunks[OF assms])
  have len: "sampler_len ?s = ?k" by (simp add: sampler_len_def)
  have c: "concat (batch_of_indices ?s) = [0..<n]" by (rule init_concat[OF assms i])
  have k: "?k = (if n = 0 then 1 else nat \<lceil>real n / real_of_int bs\<rceil>)"
    using init_ceiling_pos[OF assms, of n] by (cases "n = 0") simp_all
  have it: "mset (fst (sampler_iter r ?s)) = mset (batch_of_indices ?s)" for r
    using sampler_iter_chunks[of r ?s] by (cases "sampler_iter r ?s") simp
  have m: "mset (concat (fst (sampler_iter r ?s))) = mset [0..<n]" for r
    using mset_concat_cong[OF it[of r]] c by simp
  have d: "distinct (concat (fst (sampler_iter r ?s)))" for r
    using m[of r] by (metis distinct_upt mset_eq_imp_distinct_iff)
  have b: "batch_of_indices ?s = map (\<lambda>i. [i * nat bs..<min n (i * nat bs + nat bs)]) [0..<sampler_len ?s]"
    by (simp only: len) simp
  have lk: "sampler_len ?s = (if n = 0 then 1 else nat \<lceil>real n / real_of_int bs\<rceil>)"
    using len k by (rule trans)
  show ?thesis
    by (intro exI[of _ ?s] conjI allI) (rule i b c lk it m d)+
qed

theorem sampler_partition_witness:
  "(1::int) \<le> 2 \<and> (\<exists>s. CustomBatchSampler_init 5 2 = Inr s
      \<and> batch_of_indices s = [[0, 1], [2, 3], [4]] \<and> sampler_len s = 3
      \<and> concat (batch_of_indices s) = [0, 1, 2, 3, 4])"
proof -
  obtain s where s: "CustomBatchSampler_init 5 2 = Inr s"
      "batch_of_indices s = map (\<lambda>i. [i * nat 2..<min 5 (i * nat 2 + nat 2)]) [0..<sampler_len s]"
      "concat (batch_of_indices s) = [0..<5]"
      "sampler_len s = (if (5::nat) = 0 then 1 else nat \<lceil>real 5 / real_of_int 2\<rceil>)"
    using sampler_partition[of 2 5] by auto
  have l: "sampler_len s = 3" using s(4) by simp
  have "batch_of_indices s = [[0, 1], [2, 3], [4]]"
    using s(2) unfolding l by (simp add: upt_conv_Cons)
  then show ?thesis using s(1) l by (simp add: sampler_len_def)
qed

text \<open>
  C1 as stated fails for an empty partition: the sampler holds one empty chunk and
  reports one batch, where \<open>ceil (0 / 2)\<close> is 0.
\<close>

theorem sampler_empty_partition_counterexample:
  "CustomBatchSampler_init 0 2 = Inr \<lparr>batch_size = 2, indices = [], batch_of_indices = [[]]\<rparr>
   \<and> sampler_len \<lparr>batch_size = 2, indices = [], batch_of_indices = [[]]\<rparr> = 1
   \<and> nat \<lceil>real (0::nat) / real_of_int 2\<rceil> = 0"
  by (simp add: CustomBatchSampler_init_def chunk_def torch_split_def get_num_splits_def
        narrow_def ebind_def sampler_len_def)

lemma torch_split_sorted:
  assumes "torch_split xs bs = Inr cs" "sorted_wrt P xs"
  shows "list_all (sorted_wrt P) cs"
proof -
  have "sorted_wrt P (narrow xs a b)" for a b
    unfolding narrow_def using assms(2) by simp
  then show ?thesis using assms(1)
    by (auto simp: torch_split_def Let_def list_all_iff split: if_splits)
qed

lemma init_sorted:
  assumes "CustomBatchSampler_init n bs = Inr s"
  shows "list_all (sorted_wrt (<)) (batch_of_indices s)"
proof -
  obtain cs where cs: "torch_split [0..<n] bs = Inr cs" "batch_of_indices s = cs"
    using assms by (auto simp: CustomBatchSampler_init_def chunk_def ebind_def split: sum.splits)
  have "sorted_wrt (<) [0..<n]" by simp
  then show ?thesis using torch_split_sorted[OF cs(1)] cs(2) by simp
qed

lemma sampler_passes_mset:
  "list_all (\<lambda>p. mset p = mset (batch_of_indices s)) (sampler_passes rs s)"
proof (induction rs arbitrary: s)
  case Nil then show ?case by simp
next
  case (Cons r rs)
  obtain cs s' r' where it: "sampler_iter r s = (cs, s', r')" by (cases "sampler_iter r s")
  have m: "mset cs = mset (batch_of_indices s)" "batch_of_indices s' = cs"
    using sampler_iter_chunks[OF it] by simp_all
  have "list_all (\<lambda>p. mset p = mset (batch_of_indices s')) (sampler_passes rs s')" by (rule Cons.IH)
  then show ?case using it m by simp
qed

text \<open>
  C6. For every sampler the constructor returns and every sequence of iterations over
  it, each begun in an arbitrary state of the generator, every iteration yields the same
  multiset of chunks, the one fixed at construction, and every chunk it yields still
  has its indices in ascending order: a shuffle reorders the chunks and never changes
  the contents of one.
\<close>

theorem sampler_passes_same_chunks:
  assumes "CustomBatchSampler_init n bs = Inr s"
  shows "list_all (\<lambda>p. mset p = mset (batch_of_indices s) \<and> list_all (sorted_wrt (<)) p)
           (sampler_passes rs s)"
proof -
  have srt: "list_all (sorted_wrt (<)) (batch_of_indices s)" by (rule init_sorted[OF assms])
  have "list_all (sorted_wrt (<)) p" if "mset p = mset (batch_of_indices s)" for p
  proof -
    have "set p = set (batch_of_indices s)" using that by (metis set_mset_mset)
    then show ?thesis using srt by (simp add: list_all_iff)
  qed
  then show ?thesis using sampler_passes_mset[of s rs] by (auto simp: list_all_iff)
qed

theorem sampler_passes_same_chunks_witness:
  "CustomBatchSampler_init 5 2 = Inr \<lparr>batch_size = 2, indices = [0, 1, 2, 3, 4],
                                      batch_of_indices = [[0, 1], [2, 3], [4]]\<rparr>
   \<and> sampler_passes [\<lambda>i. 0, \<lambda>i. i] \<lparr>batch_size = 2, indices = [0, 1, 2, 3, 4],
                                      batch_of_indices = [[0, 1], [2, 3], [4]]\<rparr>
       = [[[2, 3], [4], [0, 1]], [[0, 1], [4], [2, 3]]]
   \<and> mset [[2, 3], [4], [0, 1::nat]] = mset [[0, 1], [2, 3], [4]]
   \<and> mset [[0, 1], [4], [2, 3::nat]] = mset [[0, 1], [2, 3], [4]]"
proof -
  let ?s = "\<lparr>batch_size = 2, indices = [0, 1, 2, 3, 4], batch_of_indices = [[0, 1], [2, 3], [4]]\<rparr>"
  have i: "CustomBatchSampler_init 5 2 = Inr ?s"
    by (simp add: CustomBatchSampler_init_def chunk_def torch_split_def get_num_splits_def
        narrow_def ebind_def upt_conv_Cons Let_def)
  have p: "sampler_passes [\<lambda>i. 0, \<lambda>i. i] ?s = [[[2, 3], [4], [0, 1]], [[0, 1], [4], [2, 3]]]"
    by code_simp
  show ?thesis
    using sampler_passes_same_chunks[OF i, of "[\<lambda>i. 0, \<lambda>i. i]"] i p by simp
qed

section \<open>Properties of the padding collator\<close>

lemma max_len_Max: "seqs \<noteq> [] \<Longrightarrow> max_len seqs = Max (length ` set seqs)"
proof (induction seqs)
  case Nil then show ?case by simp
next
  case (Cons s seqs)
  show ?case
  proof (cases "seqs = []")
    case True then show ?thesis by (simp add: max_len_def)
  next
    case False
    then have "max_len seqs = Max (length ` set seqs)" by (rule Cons.IH)
    then show ?thesis using False by (simp add: max_len_def)
  qed
qed

lemma max_len_foldr: "max_len seqs = foldr max (map length seqs) 0"
  by (induction seqs) (simp_all add: max_len_def)

lemma max_len_ge: "s \<in> set seqs \<Longrightarrow> length s \<le> max_len seqs"
  unfolding max_len_foldr by (induction seqs) auto

lemma pad_sequence_shape:
  assumes "seqs \<noteq> []"
  shows "has_shape (map (\<lambda>s. s @ replicate (max_len seqs - length s) v) seqs) (length seqs) (max_len seqs)"
  using max_len_ge[of _ seqs] by (auto simp: has_shape_def list_all_iff)

text \<open>
  C5. For every non-empty batch the collator returns a source tensor and a target
  tensor with one row per example; the source rows are as wide as the longest source
  sequence of the batch and the target rows as wide as the longest target sequence,
  each width taken on its own; every row is the example's own sequence followed by
  pad ids 0 only. For source lengths 3, 5, 2 the source tensor has shape (3, 5) and its
  third row is the length-2 sequence followed by exactly three 0s.
\<close>

theorem pad_collate_fn_pads:
  assumes "batch \<noteq> []"
  shows "\<exists>src trg. pad_collate_fn batch = Inr (src, trg)
           \<and> src = map (\<lambda>ex. fst ex @ replicate (Max (length ` fst ` set batch) - length (fst ex)) 0) batch
           \<and> trg = map (\<lambda>ex. snd ex @ replicate (Max (length ` snd ` set batch) - length (snd ex)) 0) batch
           \<and> has_shape src (length batch) (Max (length ` fst ` set batch))
           \<and> has_shape trg (length batch) (Max (length ` snd ` set batch))
           \<and> (map (length \<circ> fst) batch = [3, 5, 2] \<longrightarrow>
                 has_shape src 3 5 \<and> src ! 2 = fst (batch ! 2) @ [0, 0, 0])"
proof -
  let ?ms = "max_len (map fst batch)" and ?mt = "max_len (map snd batch)"
  let ?src = "map (\<lambda>s. s @ replicate (?ms - length s) (0::int)) (map fst batch)"
  let ?trg = "map (\<lambda>s. s @ replicate (?mt - length s) (0::int)) (map snd batch)"
  have ne: "map fst batch \<noteq> []" "map snd batch \<noteq> []" using assms by simp_all
  have c: "pad_collate_fn batch = Inr (?src, ?trg)"
    using assms by (simp add: pad_collate_fn_def pad_sequence_def ebind_def)
  have ms: "?ms = Max (length ` fst ` set batch)" using max_len_Max[OF ne(1)] by (simp add: image_image)
  have mt: "?mt = Max (length ` snd ` set batch)" using max_len_Max[OF ne(2)] by (simp add: image_image)
  have s1: "?src = map (\<lambda>ex. fst ex @ replicate (Max (length ` fst ` set batch) - length (fst ex)) 0) batch"
    unfolding ms by (simp add: comp_def)
  have t1: "?trg = map (\<lambda>ex. snd ex @ replicate (Max (length ` snd ` set batch) - length (snd ex)) 0) batch"
    unfolding mt by (simp add: comp_def)
  have hs: "has_shape ?src (length batch) (Max (length ` fst ` set batch))"
    using pad_sequence_shape[OF ne(1), of 0] unfolding ms by simp
  have ht: "has_shape ?trg (length batch) (Max (length ` snd ` set batch))"
    using pad_sequence_shape[OF ne(2), of 0] unfolding mt by simp
  have ex: "has_shape ?src 3 5 \<and> ?src ! 2 = fst (batch ! 2) @ [0, 0, 0]"
    if l: "map (length \<circ> fst) batch = [3, 5, 2]"
  proof -
    have lb: "length batch = 3" using arg_cong[OF l, of length] by simp
    have "map length (map fst batch) = [3, 5, 2]" using l by simp
    then have m5: "?ms = 5" by (simp only: max_len_foldr) simp
    have l2: "length (fst (batch ! 2)) = 2"
      using arg_cong[OF l, of "\<lambda>xs. xs ! 2"] lb by simp
    have "?src ! 2 = fst (batch ! 2) @ replicate (?ms - length (fst (batch ! 2))) 0"
      using lb by simp
    then have "?src ! 2 = fst (batch ! 2) @ [0, 0, 0]" unfolding m5 l2 by (simp add: numeral_3_eq_3)
    moreover have "has_shape ?src 3 5" using pad_sequence_shape[OF ne(1), of 0] lb m5 by simp
    ultimately show ?thesis by simp
  qed
  show ?thesis
    apply (rule exI[of _ ?src], rule exI[of _ ?trg])
    using c s1 t1 hs ht ex by (intro conjI impI) blast+
qed

theorem pad_collate_fn_pads_witness:
  "[([1, 2, 3], [7]), ([1, 2, 3, 4, 5], [8, 9]), ([6, 7], [1::int])] \<noteq> ([] :: example list)
   \<and> (\<exists>src trg. pad_collate_fn [([1, 2, 3], [7]), ([1, 2, 3, 4, 5], [8, 9]), ([6, 7], [1])] = Inr (src, trg)
         \<and> has_shape src 3 5 \<and> src ! 2 = [6, 7, 0, 0, 0] \<and> has_shape trg 3 2
         \<and> trg = [[7, 0], [8, 9], [1, 0]])"
proof -
  let ?b = "[([1, 2, 3], [7]), ([1, 2, 3, 4, 5], [8, 9]), ([6, 7], [1::int])] :: example list"
  have ne: "?b \<noteq> []" by simp
  obtain src trg where r: "pad_collate_fn ?b = Inr (src, trg)"
      "trg = map (\<lambda>ex. snd ex @ replicate (Max (length ` snd ` set ?b) - length (snd ex)) 0) ?b"
      "has_shape trg (length ?b) (Max (length ` snd ` set ?b))"
      "map (length \<circ> fst) ?b = [3, 5, 2] \<longrightarrow> has_shape src 3 5 \<and> src ! 2 = fst (?b ! 2) @ [0, 0, 0]"
    using pad_collate_fn_pads[OF ne] by blast
  have "has_shape src 3 5 \<and> src ! 2 = [6, 7, 0, 0, 0]" using r(4) by simp
  moreover have "has_shape trg 3 2" using r(3) by (simp add: numeral_2_eq_2 numeral_3_eq_3)
  moreover have "trg = [[7, 0], [8, 9], [1, 0]]" using r(2) by (simp add: numeral_2_eq_2)
  ultimately show ?thesis using r(1) by simp
qed

section \<open>Properties of the data loaders\<close>

lemma ebind_Inr [simp]: "ebind (Inr x) f = f x" by (simp add: ebind_def)
lemma ebind_Inl [simp]: "ebind (Inl e) f = Inl e" by (simp add: ebind_def)

lemma fetch_items_ok:
  "list_all (\<lambda>i. i < length ds) c \<Longrightarrow> fetch_items ds c = Inr (map (\<lambda>i. ds ! i) c)"
  by (induction c) (simp_all add: getitem_def)

lemma fetch_ok:
  assumes "c \<noteq> []" "list_all (\<lambda>i. i < length ds) c"
  shows "\<exists>b. fetch ds c = Inr b \<and> length (fst b) = length c \<and> length (snd b) = length c"
  using assms by (simp add: fetch_def fetch_items_ok pad_collate_fn_def pad_sequence_def)


lemma chunks_ok_mset:
  assumes "mset cs' = mset cs" "chunks_ok ds cs"
  shows "chunks_ok ds cs'"
proof -
  have "set cs' = set cs" using assms(1) by (metis set_mset_mset)
  moreover have "cs' \<noteq> []" using assms by (auto simp: chunks_ok_def)
  ultimately show ?thesis using assms(2) by (simp add: chunks_ok_def list_all_iff)
qed

lemma dataloader_iter_props:
  assumes "dataloader_iter r dl = (cs, dl', r')"
  shows "dataset dl' = dataset dl" "batch_of_indices (batch_sampler dl') = cs"
        "mset cs = mset (batch_of_indices (batch_sampler dl))"
        "dataloader_len dl' = dataloader_len dl" "length cs = dataloader_len dl"
proof -
  obtain smp where it: "sampler_iter r (batch_sampler dl) = (cs, smp, r')" and dl': "dl' = dl\<lparr>batch_sampler := smp\<rparr>"
    using assms by (auto simp: dataloader_iter_def split: prod.splits)
  note p = sampler_iter_chunks[OF it]
  show "dataset dl' = dataset dl" using dl' by simp
  show "batch_of_indices (batch_sampler dl') = cs" using dl' p by simp
  show m: "mset cs = mset (batch_of_indices (batch_sampler dl))" using p by simp
  have "length cs = length (batch_of_indices (batch_sampler dl))" using m by (metis size_mset)
  then show "dataloader_len dl' = dataloader_len dl" "length cs = dataloader_len dl"
    using dl' p by (simp_all add: dataloader_len_def sampler_len_def)
qed

lemma dataloader_iter_ok:
  assumes "dataloader_iter r dl = (cs, dl', r')" "dataloader_ok dl"
  shows "dataloader_ok dl'" "chunks_ok (dataset dl') cs"
  using dataloader_iter_props[OF assms(1)] assms(2) chunks_ok_mset[of cs "batch_of_indices (batch_sampler dl)" "dataset dl"]
  by (simp_all add: dataloader_ok_def)

lemma init_chunks_ok:
  assumes "1 \<le> bs" "0 < n" "CustomBatchSampler_init n bs = Inr s" "length ds = n"
  shows "chunks_ok ds (batch_of_indices s)"
proof -
  let ?k = "max 1 (nat \<lceil>real n / real (nat bs)\<rceil>)"
  have b: "batch_of_indices s = map (\<lambda>i. [i * nat bs..<min n (i * nat bs + nat bs)]) [0..<?k]"
    using init_chunks[OF assms(1), of n] assms(3) by simp
  have c: "concat (batch_of_indices s) = [0..<n]" by (rule init_concat[OF assms(1,3)])
  have sz: "0 < nat bs" using assms(1) by simp
  have k: "?k = get_num_splits n (nat bs)" using get_num_splits_ceiling[OF sz, of n] by simp
  have ne: "[i * nat bs..<min n (i * nat bs + nat bs)] \<noteq> []" if "i < ?k" for i
  proof -
    have "i \<le> ?k - 1" using that by linarith
    then have "i * nat bs \<le> (?k - 1) * nat bs" by (rule mult_le_mono1)
    also have "\<dots> < n" unfolding k by (rule get_num_splits_tight[OF sz assms(2)])
    finally show ?thesis using sz by simp
  qed
  have "batch_of_indices s \<noteq> []" unfolding b by simp
  moreover have "c \<noteq> [] \<and> list_all (\<lambda>i. i < length ds) c" if cm: "c \<in> set (batch_of_indices s)" for c
  proof -
    obtain i where i: "i < ?k" "c = [i * nat bs..<min n (i * nat bs + nat bs)]"
      using cm unfolding b by auto
    have "c \<noteq> []" unfolding i(2) by (rule ne[OF i(1)])
    moreover have "set c \<subseteq> set (concat (batch_of_indices s))" using cm by auto
    ultimately show ?thesis unfolding c using assms(4) by (auto simp: list_all_iff)
  qed
  ultimately show ?thesis by (simp add: chunks_ok_def list_all_iff)
qed

section \<open>Properties of the data loader setup\<close>

text \<open>
  C9. When \<open>get_translation_dataloaders\<close> is called with a tokenizer type other than
  \<open>wordlevel\<close> and \<open>bpe\<close>, no pretrained-tokenizer path is configured and the corpus
  holds the requested number of examples, the variable \<open>tokenizer\<close> is never bound
  and the function fails with the unbound-variable error at \<open>tokenizer.save\<close>: it
  neither returns data loaders nor raises any other error.
\<close>

theorem unknown_tokenizer_type_unbound:
  assumes "tokenizer_type \<noteq> ''wordlevel''" and "tokenizer_type \<noteq> ''bpe''"
    and "PRETRAIN_TOKENIZER_PT env = None"
    and "dataset_size \<le> int (length (corpus env))"
  shows "get_translation_dataloaders env dataset_size vocab_size tokenizer_type
           tokenizer_save_pth test_proportion bs mx = Inl UnboundLocalError"
  using assms by (simp add: get_translation_dataloaders_def get_dataset_def)

theorem unknown_tokenizer_type_unbound_witness:
  "''char'' \<noteq> ''wordlevel'' \<and> ''char'' \<noteq> ''bpe''
   \<and> PRETRAIN_TOKENIZER_PT \<lparr>corpus = [(''a b'', ''c d'')],
         get_tokenizer_wordlevel = (\<lambda>d v. Inr ()), get_tokenizer_bpe = (\<lambda>d v. Inr ()),
         tokenizer_from_file = (\<lambda>p. Inr ()), tokenizer_encode = (\<lambda>t s. map of_char s),
         train_test_split = demo_split, PRETRAIN_TOKENIZER_PT = None\<rparr> = None
   \<and> (1::int) \<le> int (length [(''a b'', ''c d'')])
   \<and> get_translation_dataloaders \<lparr>corpus = [(''a b'', ''c d'')],
         get_tokenizer_wordlevel = (\<lambda>d v. Inr ()), get_tokenizer_bpe = (\<lambda>d v. Inr ()),
         tokenizer_from_file = (\<lambda>p. Inr ()), tokenizer_encode = (\<lambda>t s. map of_char s),
         train_test_split = demo_split, PRETRAIN_TOKENIZER_PT = None\<rparr>
       1 100 ''char'' ''tok.json'' 0.1 2 10 = Inl UnboundLocalError"
  using unknown_tokenizer_type_unbound[where tokenizer_type = "''char''"
      and env = "\<lparr>corpus = [(''a b'', ''c d'')],
         get_tokenizer_wordlevel = (\<lambda>d v. Inr ()), get_tokenizer_bpe = (\<lambda>d v. Inr ()),
         tokenizer_from_file = (\<lambda>p. Inr ()), tokenizer_encode = (\<lambda>t s. map of_char s),
         train_test_split = demo_split, PRETRAIN_TOKENIZER_PT = None\<rparr>"
      and dataset_size = 1 and vocab_size = 100 and tokenizer_save_pth = "''tok.json''"
      and test_proportion = "0.1" and bs = 2 and mx = 10]
  by simp

section \<open>Properties of the training orchestrator\<close>

lemma loader_shuffled_refl [simp]: "loader_shuffled dl dl"
  by (simp add: loader_shuffled_def)

lemma loader_shuffled_trans:
  "loader_shuffled a b \<Longrightarrow> loader_shuffled b c \<Longrightarrow> loader_shuffled a c"
  by (simp add: loader_shuffled_def)

lemma loader_shuffled_len: "loader_shuffled a b \<Longrightarrow> dataloader_len b = dataloader_len a"
  unfolding loader_shuffled_def dataloader_len_def sampler_len_def by (metis size_mset)

lemma loader_shuffled_ok: "loader_shuffled a b \<Longrightarrow> dataloader_ok a \<Longrightarrow> dataloader_ok b"
  unfolding loader_shuffled_def dataloader_ok_def using chunks_ok_mset by metis

lemma loader_shuffled_set:
  "loader_shuffled a b \<Longrightarrow> set (batch_of_indices (batch_sampler b)) = set (batch_of_indices (batch_sampler a))"
  unfolding loader_shuffled_def by (metis set_mset_mset)

lemma dataloader_iter_shuffled:
  "dataloader_iter r dl = (cs, dl', r') \<Longrightarrow> loader_shuffled dl dl'"
  using dataloader_iter_props(1,2,3)[of r dl cs dl' r'] by (simp add: loader_shuffled_def)

lemma setup_same_refl [simp]: "setup_same s s"
  by (simp add: setup_same_def)

lemma setup_same_trans: "setup_same a b \<Longrightarrow> setup_same b c \<Longrightarrow> setup_same a c"
  unfolding setup_same_def using loader_shuffled_trans by metis

lemma setup_same_ok: "setup_same s s' \<Longrightarrow> learner_ok s \<Longrightarrow> learner_ok s'"
  unfolding setup_same_def learner_ok_def using loader_shuffled_ok by metis

lemma log_steps_append [simp]: "log_steps (xs @ ys) = log_steps xs @ log_steps ys"
  by (induction xs rule: log_steps.induct) simp_all

lemma table_flushes_append [simp]: "table_flushes (xs @ ys) = table_flushes xs @ table_flushes ys"
  by (induction xs rule: table_flushes.induct) simp_all

lemmas learner_ops =
  training_batch_def py_mod_def optimizer_step_def scheduler_step_def optimizer_zero_grad_def
  loss_backward_def log_event_def Let_def

lemma training_batch_effect:
  assumes "GRAD_ACCUMULATION_STEPS (config s) \<noteq> 0"
  shows "\<exists>s'. training_batch c epoch i batch loss_sum s
              = Inr (py_add (float_round c) loss_sum
                     (forward_loss c (model_training s) (model_values s) batch), s')
          \<and> training_step s' = training_step s + 1
          \<and> global_step s' = global_step s + 1
          \<and> trace s' = trace s @ [Backward epoch i]
               @ (if GRAD_ACCUMULATION_STEPS (config s) dvd training_step s
                  then [OptimizerStep (grad_pending s @ [(epoch, i)])]
                       @ (if has_scheduler s then [SchedulerStep] else []) @ [ZeroGrad]
                  else [])
               @ [WandbLog (TrainLoss epoch i (forward_loss c (model_training s) (model_values s) batch))
                    (global_step s)]
          \<and> grad_pending s' = (if GRAD_ACCUMULATION_STEPS (config s) dvd training_step s
                                then [] else grad_pending s @ [(epoch, i)])
          \<and> config s' = config s \<and> has_scheduler s' = has_scheduler s \<and> model_sd s' = model_sd s
          \<and> train_dataloader s' = train_dataloader s \<and> val_dataloader s' = val_dataloader s
          \<and> table s' = table s \<and> rng_state s' = rng_state s \<and> next_free s' = next_free s
          \<and> best_val_loss s' = best_val_loss s
          \<and> best_model_state_dict s' = best_model_state_dict s
          \<and> model_training s' = model_training s"
  using assms by (simp add: learner_ops dvd_eq_mod_eq_0)

lemma steps_Cons: "g # map (\<lambda>i. g + 1 + int i) [0..<n] = map (\<lambda>i. g + int i) [0..<Suc n]"
  by (simp only: map_upt_Suc) simp

lemma training_loop_effect:
  assumes "GRAD_ACCUMULATION_STEPS (config s) \<noteq> 0"
    and "list_all (\<lambda>c. c \<noteq> [] \<and> list_all (\<lambda>i. i < length (dataset (train_dataloader s))) c) chs"
  shows "\<exists>ls s'. training_loop c epoch j chs l s = Inr (ls, s')
          \<and> training_step s' = training_step s + int (length chs)
          \<and> global_step s' = global_step s + int (length chs)
          \<and> log_steps (trace s') = log_steps (trace s) @ map (\<lambda>i. global_step s + int i) [0..<length chs]
          \<and> table_flushes (trace s') = table_flushes (trace s)
          \<and> config s' = config s \<and> has_scheduler s' = has_scheduler s \<and> model_sd s' = model_sd s
          \<and> train_dataloader s' = train_dataloader s \<and> val_dataloader s' = val_dataloader s
          \<and> table s' = table s \<and> rng_state s' = rng_state s \<and> next_free s' = next_free s
          \<and> best_val_loss s' = best_val_loss s
          \<and> best_model_state_dict s' = best_model_state_dict s
          \<and> model_training s' = model_training s"
  using assms
proof (induction chs arbitrary: j l s)
  case Nil
  then show ?case by simp
next
  case (Cons ch chs)
  have ch: "ch \<noteq> []" "list_all (\<lambda>i. i < length (dataset (train_dataloader s))) ch"
    using Cons.prems(2) by simp_all
  obtain b where b: "fetch (dataset (train_dataloader s)) ch = Inr b"
    using fetch_ok[OF ch] by blast
  let ?loss = "forward_loss c (model_training s) (model_values s) b"
  obtain s1 where s1: "training_batch c epoch j b l s = Inr (py_add (float_round c) l ?loss, s1)"
      "training_step s1 = training_step s + 1" "global_step s1 = global_step s + 1"
      "trace s1 = trace s @ [Backward epoch j]
               @ (if GRAD_ACCUMULATION_STEPS (config s) dvd training_step s
                  then [OptimizerStep (grad_pending s @ [(epoch, j)])]
                       @ (if has_scheduler s then [SchedulerStep] else []) @ [ZeroGrad]
                  else [])
               @ [WandbLog (TrainLoss epoch j ?loss) (global_step s)]"
      "config s1 = config s" "has_scheduler s1 = has_scheduler s" "model_sd s1 = model_sd s"
      "train_dataloader s1 = train_dataloader s" "val_dataloader s1 = val_dataloader s"
      "table s1 = table s" "rng_state s1 = rng_state s" "next_free s1 = next_free s"
      "best_val_loss s1 = best_val_loss s" "best_model_state_dict s1 = best_model_state_dict s"
      "model_training s1 = model_training s"
    using training_batch_effect[OF Cons.prems(1), of c epoch j b l] by blast
  have ls1: "log_steps (trace s1) = log_steps (trace s) @ [global_step s]"
    and tf1: "table_flushes (trace s1) = table_flushes (trace s)"
    unfolding s1(4) by simp_all
  have p1: "GRAD_ACCUMULATION_STEPS (config s1) \<noteq> 0" using Cons.prems(1) s1(5) by simp
  have p2: "list_all (\<lambda>c. c \<noteq> [] \<and> list_all (\<lambda>i. i < length (dataset (train_dataloader s1))) c) chs"
    using Cons.prems(2) s1(8) by simp
  obtain ls s' where r: "training_loop c epoch (Suc j) chs (py_add (float_round c) l ?loss) s1 = Inr (ls, s')"
      "training_step s' = training_step s1 + int (length chs)"
      "global_step s' = global_step s1 + int (length chs)"
      "log_steps (trace s') = log_steps (trace s1) @ map (\<lambda>i. global_step s1 + int i) [0..<length chs]"
      "table_flushes (trace s') = table_flushes (trace s1)"
      "config s' = config s1" "has_scheduler s' = has_scheduler s1" "model_sd s' = model_sd s1"
      "train_dataloader s' = train_dataloader s1" "val_dataloader s' = val_dataloader s1"
      "table s' = table s1" "rng_state s' = rng_state s1" "next_free s' = next_free s1"
      "best_val_loss s' = best_val_loss s1" "best_model_state_dict s' = best_model_state_dict s1"
      "model_training s' = model_training s1"
    using Cons.IH[OF p1 p2, of "Suc j" "py_add (float_round c) l ?loss"] by blast
  have run: "training_loop c epoch j (ch # chs) l s = Inr (ls, s')"
    using b s1(1) r(1) by simp
  have steps: "log_steps (trace s') = log_steps (trace s) @ map (\<lambda>i. global_step s + int i) [0..<length (ch # chs)]"
    unfolding r(4) ls1 s1(3) using steps_Cons[of "global_step s" "length chs"] by simp
  show ?case
    apply (rule exI[of _ ls], rule exI[of _ s'])
    using run steps r(2-3,5-) s1(2-3,5-) tf1 by simp
qed

lemma validation_loop_effect:
  assumes "list_all (\<lambda>c. c \<noteq> [] \<and> list_all (\<lambda>i. i < length (dataset (val_dataloader s))) c) chs"
  shows "\<exists>ls seen' s'. validation_loop c epoch chs l seen s = Inr (ls, seen', s')
          \<and> s' = s\<lparr>global_step := global_step s', trace := trace s'\<rparr>
          \<and> global_step s' = global_step s + int (length chs)
          \<and> log_steps (trace s') = log_steps (trace s) @ map (\<lambda>i. global_step s + int i) [0..<length chs]
          \<and> table_flushes (trace s') = table_flushes (trace s)"
  using assms
proof (induction chs arbitrary: l seen s)
  case Nil
  then show ?case by simp
next
  case (Cons ch chs)
  have ch: "ch \<noteq> []" "list_all (\<lambda>i. i < length (dataset (val_dataloader s))) ch"
    using Cons.prems by simp_all
  obtain b where b: "fetch (dataset (val_dataloader s)) ch = Inr b"
    using fetch_ok[OF ch] by blast
  let ?loss = "forward_loss c (model_training s) (model_values s) b"
  let ?s1 = "s\<lparr>trace := trace s @ [WandbLog (ValidationLoss epoch ?loss) (global_step s)],
               global_step := global_step s + 1\<rparr>"
  have p: "list_all (\<lambda>c. c \<noteq> [] \<and> list_all (\<lambda>i. i < length (dataset (val_dataloader ?s1))) c) chs"
    using Cons.prems by simp
  obtain ls seen' s' where r: "validation_loop c epoch chs (py_add (float_round c) l ?loss) (seen @ [b]) ?s1
                                      = Inr (ls, seen', s')"
      "s' = ?s1\<lparr>global_step := global_step s', trace := trace s'\<rparr>"
      "global_step s' = global_step ?s1 + int (length chs)"
      "log_steps (trace s') = log_steps (trace ?s1) @ map (\<lambda>i. global_step ?s1 + int i) [0..<length chs]"
      "table_flushes (trace s') = table_flushes (trace ?s1)"
    using Cons.IH[OF p, of "py_add (float_round c) l ?loss" "seen @ [b]"] by blast
  have run: "validation_loop c epoch (ch # chs) l seen s = Inr (ls, seen', s')"
    using b r(1) by (simp add: log_event_def Let_def)
  have steps: "log_steps (trace s') = log_steps (trace s) @ map (\<lambda>i. global_step s + int i) [0..<length (ch # chs)]"
    unfolding r(4) using steps_Cons[of "global_step s" "length chs"] by simp
  have fr: "s' = s\<lparr>global_step := global_step s', trace := trace s'\<rparr>"
    by (subst r(2)) simp
  show ?case
    apply (rule exI[of _ ls], rule exI[of _ seen'], rule exI[of _ s'])
    using run steps fr r(3,5) by simp
qed

lemma chunks_ok_fetchable:
  "chunks_ok ds cs \<Longrightarrow> list_all (\<lambda>c. c \<noteq> [] \<and> list_all (\<lambda>i. i < length ds) c) cs"
  by (simp add: chunks_ok_def)

lemma first_batch_effect:
  assumes "dataloader_ok dl"
  shows "\<exists>b dl' r' ch. first_batch r dl = Inr (b, dl', r') \<and> loader_shuffled dl dl'
           \<and> ch \<in> set (batch_of_indices (batch_sampler dl))
           \<and> length (fst b) = length ch \<and> length (snd b) = length ch"
proof -
  obtain cs dl' r' where it: "dataloader_iter r dl = (cs, dl', r')" by (cases "dataloader_iter r dl")
  have sh: "loader_shuffled dl dl'" by (rule dataloader_iter_shuffled[OF it])
  have ok: "chunks_ok (dataset dl') cs" by (rule dataloader_iter_ok(2)[OF it assms])
  then obtain ch rest where cs: "cs = ch # rest" by (cases cs) (auto simp: chunks_ok_def)
  have chp: "ch \<noteq> []" "list_all (\<lambda>i. i < length (dataset dl')) ch"
    using ok cs by (simp_all add: chunks_ok_def)
  obtain b where b: "fetch (dataset dl') ch = Inr b" "length (fst b) = length ch" "length (snd b) = length ch"
    using fetch_ok[OF chp] by blast
  have "set cs = set (batch_of_indices (batch_sampler dl))"
    using dataloader_iter_props(3)[OF it] by (metis set_mset_mset)
  then have mem: "ch \<in> set (batch_of_indices (batch_sampler dl))" using cs by auto
  have "first_batch r dl = Inr (b, dl', r')" using it cs b(1) by (simp add: first_batch_def)
  then show ?thesis using sh mem b(2,3) by blast
qed

lemma track_rows_length:
  "i \<le> n \<Longrightarrow> length (track_rows c vals epoch sp n i rows) = min (nat (n - i)) (length rows)"
proof (induction rows arbitrary: i)
  case Nil then show ?case by simp
next
  case (Cons r rows)
  obtain enc dec where r: "r = (enc, dec)" by (cases r)
  show ?case
  proof (cases "i = n")
    case True then show ?thesis using r by simp
  next
    case False
    then have "i + 1 \<le> n" using Cons.prems by simp
    then have "length (track_rows c vals epoch sp n (i + 1) rows) = min (nat (n - (i + 1))) (length rows)"
      by (rule Cons.IH)
    moreover have "nat (n - i) = Suc (nat (n - (i + 1)))" using \<open>i + 1 \<le> n\<close> by simp
    ultimately show ?thesis using False r by (simp add: Let_def)
  qed
qed

lemma track_example_effect:
  assumes "learner_ok s" "table s = Some t" "0 \<le> num_examples"
  shows "\<exists>s' rows ct cv. track_example c epoch num_examples s = Inr s' \<and> setup_same s s'
           \<and> table s' = Some (t @ rows)
           \<and> ct \<in> set (batch_of_indices (batch_sampler (train_dataloader s)))
           \<and> cv \<in> set (batch_of_indices (batch_sampler (val_dataloader s)))
           \<and> length rows = min (nat num_examples) (length ct) + min (nat num_examples) (length cv)
           \<and> training_step s' = training_step s \<and> global_step s' = global_step s
           \<and> trace s' = trace s \<and> grad_pending s' = grad_pending s
           \<and> cells s' = cells s \<and> next_free s' = next_free s
           \<and> best_val_loss s' = best_val_loss s
           \<and> best_model_state_dict s' = best_model_state_dict s"
proof -
  let ?s0 = "s\<lparr>model_training := False\<rparr>"
  have okt: "dataloader_ok (train_dataloader s)" and okv: "dataloader_ok (val_dataloader s)"
    using assms(1) by (simp_all add: learner_ok_def)
  obtain tb tdl r1 ct where tb: "first_batch (rng_state s) (train_dataloader s) = Inr (tb, tdl, r1)"
      "loader_shuffled (train_dataloader s) tdl"
      "ct \<in> set (batch_of_indices (batch_sampler (train_dataloader s)))"
      "length (fst tb) = length ct" "length (snd tb) = length ct"
    using first_batch_effect[OF okt, of "rng_state s"] by blast
  let ?rows1 = "track_rows c (model_values ?s0) epoch Train num_examples 0 (zip (fst tb) (snd tb))"
  let ?s1 = "?s0\<lparr>train_dataloader := tdl, rng_state := r1, table := Some (t @ ?rows1)\<rparr>"
  have a1: "table_add_data ?rows1 (?s0\<lparr>train_dataloader := tdl, rng_state := r1\<rparr>) = Inr ?s1"
    using assms(2) by (cases s) (simp add: table_add_data_def)
  obtain vb vdl r2 cv where vb: "first_batch r1 (val_dataloader s) = Inr (vb, vdl, r2)"
      "loader_shuffled (val_dataloader s) vdl"
      "cv \<in> set (batch_of_indices (batch_sampler (val_dataloader s)))"
      "length (fst vb) = length cv" "length (snd vb) = length cv"
    using first_batch_effect[OF okv, of r1] by blast
  let ?rows2 = "track_rows c (model_values ?s1) epoch Validation num_examples 0 (zip (fst vb) (snd vb))"
  let ?s2 = "?s1\<lparr>val_dataloader := vdl, rng_state := r2, table := Some (t @ ?rows1 @ ?rows2)\<rparr>"
  have a2: "table_add_data ?rows2 (?s1\<lparr>val_dataloader := vdl, rng_state := r2\<rparr>) = Inr ?s2"
    by (cases s) (simp add: table_add_data_def)
  have run: "track_example c epoch num_examples s = Inr ?s2"
    using tb(1) a1 vb(1) a2 by (simp add: track_example_def Let_def)
  have l1: "length ?rows1 = min (nat num_examples) (length ct)"
    using track_rows_length[OF assms(3), of c _ epoch Train "zip (fst tb) (snd tb)"] tb(4,5) by simp
  have l2: "length ?rows2 = min (nat num_examples) (length cv)"
    using track_rows_length[OF assms(3), of c _ epoch Validation "zip (fst vb) (snd vb)"] vb(4,5) by simp
  have ss: "setup_same s ?s2" using tb(2) vb(2) by (simp add: setup_same_def)
  show ?thesis
    apply (rule exI[of _ ?s2], rule exI[of _ "?rows1 @ ?rows2"], rule exI[of _ ct], rule exI[of _ cv])
    using run ss tb(3) vb(3) l1 l2 by simp
qed

lemma dataloader_ok_len: "dataloader_ok dl \<Longrightarrow> 0 < dataloader_len dl"
  by (simp add: dataloader_ok_def chunks_ok_def dataloader_len_def sampler_len_def)

lemma validation_epoch_effect:
  assumes "learner_ok s"
  shows "\<exists>s'. validation_epoch c epoch s = Inr s' \<and> setup_same s s'
           \<and> global_step s' = global_step s + int (dataloader_len (val_dataloader s)) + 1
           \<and> log_steps (trace s') = log_steps (trace s)
                @ map (\<lambda>i. global_step s + int i) [0..<Suc (dataloader_len (val_dataloader s))]
           \<and> table_flushes (trace s') = table_flushes (trace s)
           \<and> table s' = table s
           \<and> training_step s' = training_step s \<and> grad_pending s' = grad_pending s
           \<and> cells s' = cells s \<and> next_free s' = next_free s
           \<and> best_val_loss s' = best_val_loss s
           \<and> best_model_state_dict s' = best_model_state_dict s"
proof -
  let ?n = "dataloader_len (val_dataloader s)"
  have okv: "dataloader_ok (val_dataloader s)" using assms by (simp add: learner_ok_def)
  obtain chs vdl r' where it: "dataloader_iter (rng_state s) (val_dataloader s) = (chs, vdl, r')"
    by (cases "dataloader_iter (rng_state s) (val_dataloader s)")
  note ip = dataloader_iter_props[OF it]
  have sh: "loader_shuffled (val_dataloader s) vdl" by (rule dataloader_iter_shuffled[OF it])
  let ?s1 = "s\<lparr>model_training := False, val_dataloader := vdl, rng_state := r'\<rparr>"
  have f: "list_all (\<lambda>c. c \<noteq> [] \<and> list_all (\<lambda>i. i < length (dataset (val_dataloader ?s1))) c) chs"
    using chunks_ok_fetchable[OF dataloader_iter_ok(2)[OF it okv]] by simp
  obtain ls seen s2 where l: "validation_loop c epoch chs (Finite 0) [] ?s1 = Inr (ls, seen, s2)"
      "s2 = ?s1\<lparr>global_step := global_step s2, trace := trace s2\<rparr>"
      "global_step s2 = global_step ?s1 + int (length chs)"
      "log_steps (trace s2) = log_steps (trace ?s1) @ map (\<lambda>i. global_step ?s1 + int i) [0..<length chs]"
      "table_flushes (trace s2) = table_flushes (trace ?s1)"
    using validation_loop_effect[OF f, of c epoch "Finite 0" "[]"] by blast
  have len: "length chs = ?n" by (rule ip(5))
  have vd2: "val_dataloader s2 = vdl" by (subst l(2)) simp
  have n2: "dataloader_len (val_dataloader s2) = ?n" unfolding vd2 by (rule ip(4))
  have pos: "0 < ?n" by (rule dataloader_ok_len[OF okv])
  let ?avg = "float_div (float_round c) ls ?n"
  let ?bleu = "corpus_bleu c (model_values s2) seen"
  let ?s3 = "s2\<lparr>trace := trace s2 @ [WandbLog (ValidationSummary epoch ?bleu ?avg) (global_step s2)],
               global_step := global_step s2 + 1\<rparr>"
  have run: "validation_epoch c epoch s = Inr ?s3"
    using it l(1) n2 pos by (simp add: validation_epoch_def py_truediv_def log_event_def Let_def)
  have fields: "config s2 = config s" "has_scheduler s2 = has_scheduler s" "model_sd s2 = model_sd s"
      "train_dataloader s2 = train_dataloader s" "table s2 = table s"
      "training_step s2 = training_step s" "grad_pending s2 = grad_pending s"
      "cells s2 = cells s" "next_free s2 = next_free s" "best_val_loss s2 = best_val_loss s"
      "best_model_state_dict s2 = best_model_state_dict s"
    by (subst l(2), simp)+
  have ss: "setup_same s ?s3" using fields vd2 sh by (simp add: setup_same_def)
  have g: "global_step ?s3 = global_step s + int ?n + 1" using l(3) len by simp
  have st: "log_steps (trace ?s3) = log_steps (trace s) @ map (\<lambda>i. global_step s + int i) [0..<Suc ?n]"
    using l(3,4) len by simp
  have tf: "table_flushes (trace ?s3) = table_flushes (trace s)" using l(5) by simp
  show ?thesis
    apply (rule exI[of _ ?s3])
    using run ss g st tf fields by simp
qed

lemma save_best_model_frame:
  "config (save_best_model l s) = config s \<and> has_scheduler (save_best_model l s) = has_scheduler s
   \<and> model_sd (save_best_model l s) = model_sd s
   \<and> train_dataloader (save_best_model l s) = train_dataloader s
   \<and> val_dataloader (save_best_model l s) = val_dataloader s
   \<and> table (save_best_model l s) = table s \<and> trace (save_best_model l s) = trace s
   \<and> training_step (save_best_model l s) = training_step s
   \<and> global_step (save_best_model l s) = global_step s
   \<and> grad_pending (save_best_model l s) = grad_pending s"
  by (simp add: save_best_model_def split: prod.splits)

lemma training_epoch_effect:
  assumes "learner_ok s"
  shows "\<exists>s'. training_epoch c epoch s = Inr s' \<and> setup_same s s'
           \<and> global_step s' = global_step s + int (dataloader_len (train_dataloader s)) + 1
           \<and> training_step s' = training_step s + int (dataloader_len (train_dataloader s))
           \<and> log_steps (trace s') = log_steps (trace s)
                @ map (\<lambda>i. global_step s + int i) [0..<Suc (dataloader_len (train_dataloader s))]
           \<and> table_flushes (trace s') = table_flushes (trace s)
           \<and> table s' = table s"
proof -
  let ?n = "dataloader_len (train_dataloader s)"
  have okt: "dataloader_ok (train_dataloader s)"
    and k: "GRAD_ACCUMULATION_STEPS (config s) \<noteq> 0" and sv: "MODEL_SAVE_EPOCH_CNT (config s) \<noteq> 0"
    using assms by (simp_all add: learner_ok_def)
  obtain chs tdl r' where it: "dataloader_iter (rng_state s) (train_dataloader s) = (chs, tdl, r')"
    by (cases "dataloader_iter (rng_state s) (train_dataloader s)")
  note ip = dataloader_iter_props[OF it]
  have sh: "loader_shuffled (train_dataloader s) tdl" by (rule dataloader_iter_shuffled[OF it])
  let ?s1 = "s\<lparr>model_training := True, train_dataloader := tdl, rng_state := r'\<rparr>"
  have k1: "GRAD_ACCUMULATION_STEPS (config ?s1) \<noteq> 0" using k by simp
  have f: "list_all (\<lambda>c. c \<noteq> [] \<and> list_all (\<lambda>i. i < length (dataset (train_dataloader ?s1))) c) chs"
    using chunks_ok_fetchable[OF dataloader_iter_ok(2)[OF it okt]] by simp
  obtain ls s2 where l: "training_loop c epoch 0 chs (Finite 0) ?s1 = Inr (ls, s2)"
      "training_step s2 = training_step ?s1 + int (length chs)"
      "global_step s2 = global_step ?s1 + int (length chs)"
      "log_steps (trace s2) = log_steps (trace ?s1) @ map (\<lambda>i. global_step ?s1 + int i) [0..<length chs]"
      "table_flushes (trace s2) = table_flushes (trace ?s1)"
      "config s2 = config ?s1" "has_scheduler s2 = has_scheduler ?s1" "model_sd s2 = model_sd ?s1"
      "train_dataloader s2 = train_dataloader ?s1" "val_dataloader s2 = val_dataloader ?s1"
      "table s2 = table ?s1"
    using training_loop_effect[OF k1 f, of c epoch 0 "Finite 0"] by blast
  have len: "length chs = ?n" by (rule ip(5))
  have n2: "dataloader_len (train_dataloader s2) = ?n" using l(9) ip(4) by simp
  have pos: "0 < ?n" by (rule dataloader_ok_len[OF okt])
  let ?avg = "float_div (float_round c) ls ?n"
  let ?s4 = "s2\<lparr>trace := trace s2 @ [WandbLog (TrainAvgLoss epoch ?avg) (global_step s2)],
               global_step := global_step s2 + 1\<rparr>"
  let ?s5 = "if epoch mod MODEL_SAVE_EPOCH_CNT (config s) = 0
             then ?s4\<lparr>trace := trace ?s4 @ [CheckpointSave epoch ?avg]\<rparr> else ?s4"
  let ?s6 = "save_best_model ?avg ?s5"
  have run: "training_epoch c epoch s = Inr ?s6"
    using it l(1,6) n2 pos sv by (simp add: training_epoch_def py_truediv_def py_mod_def log_event_def Let_def)
  note fr = save_best_model_frame[of ?avg ?s5]
  have ss: "setup_same s ?s6" using fr l(6-10) sh by (simp add: setup_same_def)
  have g: "global_step ?s6 = global_step s + int ?n + 1" using fr l(3) len by simp
  have ts: "training_step ?s6 = training_step s + int ?n" using fr l(2) len by simp
  have st: "log_steps (trace ?s6) = log_steps (trace s) @ map (\<lambda>i. global_step s + int i) [0..<Suc ?n]"
    using fr l(3,4) len by simp
  have tf: "table_flushes (trace ?s6) = table_flushes (trace s)" using fr l(5) by simp
  have tb: "table ?s6 = table s" using fr l(11) by simp
  show ?thesis
    apply (rule exI[of _ ?s6])
    using run ss g ts st tf tb by (simp only:)
qed

lemma steps_append:
  "map (\<lambda>i. g + int i) [0..<a] @ map (\<lambda>i. g + int a + int i) [0..<b] = map (\<lambda>i. g + int i) [0..<a + b]"
  by (induction b) (simp_all add: add.assoc)

lemma setup_same_lens:
  assumes "setup_same s s'"
  shows "dataloader_len (train_dataloader s') = dataloader_len (train_dataloader s)"
    and "dataloader_len (val_dataloader s') = dataloader_len (val_dataloader s)"
    and "set (batch_of_indices (batch_sampler (train_dataloader s')))
           = set (batch_of_indices (batch_sampler (train_dataloader s)))"
    and "set (batch_of_indices (batch_sampler (val_dataloader s')))
           = set (batch_of_indices (batch_sampler (val_dataloader s)))"
  using assms loader_shuffled_len loader_shuffled_set unfolding setup_same_def by blast+

text \<open>One pass of the epoch loop of \<open>fit\<close>: example tracking, validation, training.\<close>

lemma fit_epoch_effect:
  assumes "learner_ok s" "table s = Some t"
  shows "\<exists>s1 s2 s3 rows ct cv.
           track_example c epoch 2 s = Inr s1 \<and> validation_epoch c epoch s1 = Inr s2
           \<and> training_epoch c epoch s2 = Inr s3
           \<and> setup_same s s3 \<and> learner_ok s3
           \<and> table s3 = Some (t @ rows)
           \<and> ct \<in> set (batch_of_indices (batch_sampler (train_dataloader s)))
           \<and> cv \<in> set (batch_of_indices (batch_sampler (val_dataloader s)))
           \<and> length rows = min 2 (length ct) + min 2 (length cv)
           \<and> global_step s3 = global_step s
                + int (dataloader_len (val_dataloader s) + dataloader_len (train_dataloader s) + 2)
           \<and> training_step s3 = training_step s + int (dataloader_len (train_dataloader s))
           \<and> log_steps (trace s3) = log_steps (trace s)
                @ map (\<lambda>i. global_step s + int i)
                    [0..<dataloader_len (val_dataloader s) + dataloader_len (train_dataloader s) + 2]
           \<and> table_flushes (trace s3) = table_flushes (trace s)"
proof -
  let ?nv = "dataloader_len (val_dataloader s)" and ?nt = "dataloader_len (train_dataloader s)"
  obtain s1 rows ct cv where t: "track_example c epoch 2 s = Inr s1" "setup_same s s1"
      "table s1 = Some (t @ rows)"
      "ct \<in> set (batch_of_indices (batch_sampler (train_dataloader s)))"
      "cv \<in> set (batch_of_indices (batch_sampler (val_dataloader s)))"
      "length rows = min (nat 2) (length ct) + min (nat 2) (length cv)"
      "training_step s1 = training_step s" "global_step s1 = global_step s" "trace s1 = trace s"
    using track_example_effect[OF assms, of 2 c epoch] by auto
  have ok1: "learner_ok s1" by (rule setup_same_ok[OF t(2) assms(1)])
  note l1 = setup_same_lens(1,2)[OF t(2)]
  obtain s2 where v: "validation_epoch c epoch s1 = Inr s2" "setup_same s1 s2"
      "global_step s2 = global_step s1 + int (dataloader_len (val_dataloader s1)) + 1"
      "log_steps (trace s2) = log_steps (trace s1)
         @ map (\<lambda>i. global_step s1 + int i) [0..<Suc (dataloader_len (val_dataloader s1))]"
      "table_flushes (trace s2) = table_flushes (trace s1)" "table s2 = table s1"
      "training_step s2 = training_step s1"
    using validation_epoch_effect[OF ok1, of c epoch] by blast
  have ok2: "learner_ok s2" by (rule setup_same_ok[OF v(2) ok1])
  note l2 = setup_same_lens(1,2)[OF v(2)]
  obtain s3 where r: "training_epoch c epoch s2 = Inr s3" "setup_same s2 s3"
      "global_step s3 = global_step s2 + int (dataloader_len (train_dataloader s2)) + 1"
      "training_step s3 = training_step s2 + int (dataloader_len (train_dataloader s2))"
      "log_steps (trace s3) = log_steps (trace s2)
         @ map (\<lambda>i. global_step s2 + int i) [0..<Suc (dataloader_len (train_dataloader s2))]"
      "table_flushes (trace s3) = table_flushes (trace s2)" "table s3 = table s2"
    using training_epoch_effect[OF ok2, of c epoch] by blast
  have ss: "setup_same s s3" using t(2) v(2) r(2) setup_same_trans by blast
  have ok3: "learner_ok s3" by (rule setup_same_ok[OF ss assms(1)])
  have g: "global_step s3 = global_step s + int (?nv + ?nt + 2)"
    using r(3) v(3) t(8) l1 l2 by simp
  have ts: "training_step s3 = training_step s + int ?nt" using r(4) v(7) t(7) l1 l2 by simp
  have "log_steps (trace s3) = log_steps (trace s)
          @ (map (\<lambda>i. global_step s + int i) [0..<Suc ?nv]
             @ map (\<lambda>i. global_step s + int (Suc ?nv) + int i) [0..<Suc ?nt])"
    using r(5) v(3,4) t(8,9) l1 l2 by simp
  also have "\<dots> = log_steps (trace s) @ map (\<lambda>i. global_step s + int i) [0..<Suc ?nv + Suc ?nt]"
    by (simp only: steps_append)
  finally have st: "log_steps (trace s3) = log_steps (trace s)
          @ map (\<lambda>i. global_step s + int i) [0..<?nv + ?nt + 2]" by simp
  have tf: "table_flushes (trace s3) = table_flushes (trace s)" using r(6) v(5) t(9) by simp
  have tb: "table s3 = Some (t @ rows)" using r(7) v(6) t(3) by simp
  have rl: "length rows = min 2 (length ct) + min 2 (length cv)" using t(6) by simp
  show ?thesis using t(1) v(1) r(1) ss ok3 tb t(4,5) rl g ts st tf by blast
qed

lemma fit_loop_effect:
  assumes "learner_ok s" "table s = Some t"
  shows "\<exists>s' rows. fit_loop c es s = Inr s' \<and> setup_same s s' \<and> learner_ok s'
           \<and> table s' = Some (t @ rows)
           \<and> 2 * length es \<le> length rows \<and> length rows \<le> 4 * length es
           \<and> (list_all (\<lambda>ch. 2 \<le> length ch) (batch_of_indices (batch_sampler (train_dataloader s)))
                \<and> list_all (\<lambda>ch. 2 \<le> length ch) (batch_of_indices (batch_sampler (val_dataloader s)))
               \<longrightarrow> length rows = 4 * length es)
           \<and> global_step s' = global_step s + int (length es
                * (dataloader_len (val_dataloader s) + dataloader_len (train_dataloader s) + 2))
           \<and> training_step s' = training_step s + int (length es * dataloader_len (train_dataloader s))
           \<and> log_steps (trace s') = log_steps (trace s)
                @ map (\<lambda>i. global_step s + int i)
                    [0..<length es * (dataloader_len (val_dataloader s) + dataloader_len (train_dataloader s) + 2)]
           \<and> table_flushes (trace s') = table_flushes (trace s)"
  using assms
proof (induction es arbitrary: s t)
  case Nil
  show ?case
    apply (rule exI[of _ s], rule exI[of _ "[]"])
    using Nil by simp
next
  case (Cons epoch es)
  let ?nv = "dataloader_len (val_dataloader s)" and ?nt = "dataloader_len (train_dataloader s)"
  let ?m = "?nv + ?nt + 2"
  let ?big = "list_all (\<lambda>ch. 2 \<le> length ch) (batch_of_indices (batch_sampler (train_dataloader s)))
                \<and> list_all (\<lambda>ch. 2 \<le> length ch) (batch_of_indices (batch_sampler (val_dataloader s)))"
  obtain s1 s2 s3 rows ct cv where e: "track_example c epoch 2 s = Inr s1"
      "validation_epoch c epoch s1 = Inr s2" "training_epoch c epoch s2 = Inr s3"
      "setup_same s s3" "learner_ok s3" "table s3 = Some (t @ rows)"
      "ct \<in> set (batch_of_indices (batch_sampler (train_dataloader s)))"
      "cv \<in> set (batch_of_indices (batch_sampler (val_dataloader s)))"
      "length rows = min 2 (length ct) + min 2 (length cv)"
      "global_step s3 = global_step s + int ?m"
      "training_step s3 = training_step s + int ?nt"
      "log_steps (trace s3) = log_steps (trace s) @ map (\<lambda>i. global_step s + int i) [0..<?m]"
      "table_flushes (trace s3) = table_flushes (trace s)"
    using fit_epoch_effect[OF Cons.prems, of c epoch] by blast
  note l3 = setup_same_lens[OF e(4)]
  have okt: "chunks_ok (dataset (train_dataloader s)) (batch_of_indices (batch_sampler (train_dataloader s)))"
    and okv: "chunks_ok (dataset (val_dataloader s)) (batch_of_indices (batch_sampler (val_dataloader s)))"
    using Cons.prems(1) by (simp_all add: learner_ok_def dataloader_ok_def)
  have ne: "ct \<noteq> []" "cv \<noteq> []" using okt okv e(7,8) by (auto simp: chunks_ok_def list_all_iff)
  then have "1 \<le> length ct" "1 \<le> length cv" by (simp_all add: Suc_leI)
  then have rb: "2 \<le> length rows" "length rows \<le> 4" using e(9) by simp_all
  have rbig: "length rows = 4" if "?big"
    using that e(7,8,9) by (auto simp: list_all_iff)
  obtain s' rows' where r: "fit_loop c es s3 = Inr s'" "setup_same s3 s'" "learner_ok s'"
      "table s' = Some ((t @ rows) @ rows')"
      "2 * length es \<le> length rows'" "length rows' \<le> 4 * length es"
      "list_all (\<lambda>ch. 2 \<le> length ch) (batch_of_indices (batch_sampler (train_dataloader s3)))
        \<and> list_all (\<lambda>ch. 2 \<le> length ch) (batch_of_indices (batch_sampler (val_dataloader s3)))
       \<longrightarrow> length rows' = 4 * length es"
      "global_step s' = global_step s3 + int (length es
          * (dataloader_len (val_dataloader s3) + dataloader_len (train_dataloader s3) + 2))"
      "training_step s' = training_step s3 + int (length es * dataloader_len (train_dataloader s3))"
      "log_steps (trace s') = log_steps (trace s3)
         @ map (\<lambda>i. global_step s3 + int i)
             [0..<length es * (dataloader_len (val_dataloader s3) + dataloader_len (train_dataloader s3) + 2)]"
      "table_flushes (trace s') = table_flushes (trace s3)"
    using Cons.IH[OF e(5,6), of ] by blast
  have run: "fit_loop c (epoch # es) s = Inr s'" using e(1,2,3) r(1) by simp
  have ss: "setup_same s s'" using e(4) r(2) setup_same_trans by blast
  have tb: "table s' = Some (t @ (rows @ rows'))" using r(4) by simp
  have c1: "2 * length (epoch # es) \<le> length (rows @ rows')" using rb(1) r(5) by simp
  have c2: "length (rows @ rows') \<le> 4 * length (epoch # es)" using rb(2) r(6) by simp
  have c3: "?big \<longrightarrow> length (rows @ rows') = 4 * length (epoch # es)"
    using rbig r(7) l3(3,4) by (simp add: list_all_iff)
  have g: "global_step s' = global_step s + int (length (epoch # es) * ?m)"
    using r(8) e(10) l3(1,2) by (simp add: algebra_simps)
  have ts: "training_step s' = training_step s + int (length (epoch # es) * ?nt)"
    using r(9) e(11) l3(1) by (simp add: algebra_simps)
  have "log_steps (trace s') = log_steps (trace s)
          @ (map (\<lambda>i. global_step s + int i) [0..<?m]
             @ map (\<lambda>i. global_step s + int ?m + int i) [0..<length es * ?m])"
    using r(10) e(10,12) l3(1,2) by simp
  also have "\<dots> = log_steps (trace s) @ map (\<lambda>i. global_step s + int i) [0..<?m + length es * ?m]"
    by (simp only: steps_append)
  finally have st0: "log_steps (trace s') = log_steps (trace s)
          @ map (\<lambda>i. global_step s + int i) [0..<?m + length es * ?m]" .
  have idx: "?m + length es * ?m = length (epoch # es) * ?m" by simp
  have st: "log_steps (trace s') = log_steps (trace s)
          @ map (\<lambda>i. global_step s + int i) [0..<length (epoch # es) * ?m]"
    using st0 by (simp only: idx)
  have tf: "table_flushes (trace s') = table_flushes (trace s)" using r(11) e(13) by simp
  show ?case
    apply (rule exI[of _ s'], rule exI[of _ "rows @ rows'"])
    using run ss r(3) tb c1 c2 c3 g ts st tf by (simp only:)
qed


lemma training_loop_trace:
  assumes "GRAD_ACCUMULATION_STEPS (config s) \<noteq> 0"
    and "list_all (\<lambda>c. c \<noteq> [] \<and> list_all (\<lambda>i. i < length (dataset (train_dataloader s))) c) chs"
  shows "\<exists>ls s' losses. training_loop c epoch j chs l s = Inr (ls, s')
          \<and> length losses = length chs
          \<and> ls = foldl (py_add (float_round c)) l losses
          \<and> trace s' = trace s
               @ expected_training_events (GRAD_ACCUMULATION_STEPS (config s)) (has_scheduler s) epoch
                   (training_step s) (global_step s) j losses (grad_pending s)"
  using assms
proof (induction chs arbitrary: j l s)
  case Nil
  show ?case
    apply (rule exI[of _ l], rule exI[of _ s], rule exI[of _ "[]"])
    by simp
next
  case (Cons ch chs)
  let ?k = "GRAD_ACCUMULATION_STEPS (config s)"
  have ch: "ch \<noteq> []" "list_all (\<lambda>i. i < length (dataset (train_dataloader s))) ch"
    using Cons.prems(2) by simp_all
  obtain b where b: "fetch (dataset (train_dataloader s)) ch = Inr b"
    using fetch_ok[OF ch] by blast
  let ?loss = "forward_loss c (model_training s) (model_values s) b"
  let ?ev = "[Backward epoch j]
               @ (if ?k dvd training_step s
                  then [OptimizerStep (grad_pending s @ [(epoch, j)])]
                       @ (if has_scheduler s then [SchedulerStep] else []) @ [ZeroGrad]
                  else [])
               @ [WandbLog (TrainLoss epoch j ?loss) (global_step s)]"
  obtain s1 where s1: "training_batch c epoch j b l s = Inr (py_add (float_round c) l ?loss, s1)"
      "training_step s1 = training_step s + 1" "global_step s1 = global_step s + 1"
      "trace s1 = trace s @ ?ev"
      "grad_pending s1 = (if ?k dvd training_step s then [] else grad_pending s @ [(epoch, j)])"
      "config s1 = config s" "has_scheduler s1 = has_scheduler s"
      "train_dataloader s1 = train_dataloader s"
    using training_batch_effect[OF Cons.prems(1), of c epoch j b l] by blast
  have p1: "GRAD_ACCUMULATION_STEPS (config s1) \<noteq> 0" using Cons.prems(1) s1(6) by simp
  have p2: "list_all (\<lambda>c. c \<noteq> [] \<and> list_all (\<lambda>i. i < length (dataset (train_dataloader s1))) c) chs"
    using Cons.prems(2) s1(8) by simp
  obtain ls s' losses where r:
      "training_loop c epoch (Suc j) chs (py_add (float_round c) l ?loss) s1 = Inr (ls, s')"
      "length losses = length chs"
      "ls = foldl (py_add (float_round c)) (py_add (float_round c) l ?loss) losses"
      "trace s' = trace s1
         @ expected_training_events (GRAD_ACCUMULATION_STEPS (config s1)) (has_scheduler s1) epoch
             (training_step s1) (global_step s1) (Suc j) losses (grad_pending s1)"
    using Cons.IH[OF p1 p2, of "Suc j" "py_add (float_round c) l ?loss"] by blast
  have run: "training_loop c epoch j (ch # chs) l s = Inr (ls, s')"
    using b s1(1) r(1) by simp
  have tr: "trace s' = trace s
               @ expected_training_events ?k (has_scheduler s) epoch
                   (training_step s) (global_step s) j (?loss # losses) (grad_pending s)"
    unfolding r(4) s1(2-7) by simp
  show ?case
    apply (rule exI[of _ ls], rule exI[of _ s'], rule exI[of _ "?loss # losses"])
    using run r(2,3) tr by simp
qed

lemma training_epoch_trace:
  assumes "learner_ok s"
  shows "\<exists>s' losses. training_epoch c epoch s = Inr s'
          \<and> length losses = dataloader_len (train_dataloader s)
          \<and> trace s' = trace s
               @ expected_training_events (GRAD_ACCUMULATION_STEPS (config s)) (has_scheduler s) epoch
                   (training_step s) (global_step s) 0 losses (grad_pending s)
               @ [WandbLog (TrainAvgLoss epoch
                     (float_div (float_round c) (foldl (py_add (float_round c)) (Finite 0) losses)
                        (dataloader_len (train_dataloader s))))
                    (global_step s + int (dataloader_len (train_dataloader s)))]
               @ (if epoch mod MODEL_SAVE_EPOCH_CNT (config s) = 0
                  then [CheckpointSave epoch
                     (float_div (float_round c) (foldl (py_add (float_round c)) (Finite 0) losses)
                        (dataloader_len (train_dataloader s)))]
                  else [])
          \<and> training_step s' = training_step s + int (dataloader_len (train_dataloader s))"
proof -
  let ?n = "dataloader_len (train_dataloader s)"
  have okt: "dataloader_ok (train_dataloader s)"
    and k: "GRAD_ACCUMULATION_STEPS (config s) \<noteq> 0" and sv: "MODEL_SAVE_EPOCH_CNT (config s) \<noteq> 0"
    using assms by (simp_all add: learner_ok_def)
  obtain chs tdl r' where it: "dataloader_iter (rng_state s) (train_dataloader s) = (chs, tdl, r')"
    by (cases "dataloader_iter (rng_state s) (train_dataloader s)")
  note ip = dataloader_iter_props[OF it]
  let ?s1 = "s\<lparr>model_training := True, train_dataloader := tdl, rng_state := r'\<rparr>"
  have k1: "GRAD_ACCUMULATION_STEPS (config ?s1) \<noteq> 0" using k by simp
  have f: "list_all (\<lambda>c. c \<noteq> [] \<and> list_all (\<lambda>i. i < length (dataset (train_dataloader ?s1))) c) chs"
    using chunks_ok_fetchable[OF dataloader_iter_ok(2)[OF it okt]] by simp
  obtain ls s2 losses where l: "training_loop c epoch 0 chs (Finite 0) ?s1 = Inr (ls, s2)"
      "length losses = length chs"
      "ls = foldl (py_add (float_round c)) (Finite 0) losses"
      "trace s2 = trace ?s1
         @ expected_training_events (GRAD_ACCUMULATION_STEPS (config ?s1)) (has_scheduler ?s1) epoch
             (training_step ?s1) (global_step ?s1) 0 losses (grad_pending ?s1)"
    using training_loop_trace[OF k1 f, of c epoch 0 "Finite 0"] by blast
  obtain ls' s2' where e: "training_loop c epoch 0 chs (Finite 0) ?s1 = Inr (ls', s2')"
      "training_step s2' = training_step ?s1 + int (length chs)"
      "global_step s2' = global_step ?s1 + int (length chs)"
      "config s2' = config ?s1" "train_dataloader s2' = train_dataloader ?s1"
    using training_loop_effect[OF k1 f, of c epoch 0 "Finite 0"] by blast
  have same: "ls' = ls" "s2' = s2" using l(1) e(1) by simp_all
  have len: "length chs = ?n" by (rule ip(5))
  have n2: "dataloader_len (train_dataloader s2) = ?n" using e(5) same ip(4) by simp
  have pos: "0 < ?n" by (rule dataloader_ok_len[OF okt])
  let ?avg = "float_div (float_round c) ls ?n"
  let ?s4 = "s2\<lparr>trace := trace s2 @ [WandbLog (TrainAvgLoss epoch ?avg) (global_step s2)],
               global_step := global_step s2 + 1\<rparr>"
  let ?s5 = "if epoch mod MODEL_SAVE_EPOCH_CNT (config s) = 0
             then ?s4\<lparr>trace := trace ?s4 @ [CheckpointSave epoch ?avg]\<rparr> else ?s4"
  let ?s6 = "save_best_model ?avg ?s5"
  have c2: "config s2 = config s" using e(4) same by simp
  have run: "training_epoch c epoch s = Inr ?s6"
    using it l(1) c2 n2 pos sv by (simp add: training_epoch_def py_truediv_def py_mod_def log_event_def Let_def)
  note fr = save_best_model_frame[of ?avg ?s5]
  have g2: "global_step s2 = global_step s + int ?n" using e(3) same len by simp
  have tr: "trace ?s6 = trace s
               @ expected_training_events (GRAD_ACCUMULATION_STEPS (config s)) (has_scheduler s) epoch
                   (training_step s) (global_step s) 0 losses (grad_pending s)
               @ [WandbLog (TrainAvgLoss epoch ?avg) (global_step s + int ?n)]
               @ (if epoch mod MODEL_SAVE_EPOCH_CNT (config s) = 0
                  then [CheckpointSave epoch ?avg] else [])"
    using fr l(4) g2 by simp
  have ts: "training_step ?s6 = training_step s + int ?n" using fr e(2) same len by simp
  show ?thesis
    apply (rule exI[of _ ?s6], rule exI[of _ losses])
    using run l(2) len tr ts unfolding l(3) by (simp only:)
qed

text \<open>
  C2. With a gradient-accumulation factor other than 0, the body of the training loop
  always completes, and in every batch it runs the backward pass and then, exactly when
  \<open>training_step\<close> is a multiple of the factor at that moment, an optimizer step, a
  scheduler step if a scheduler is present, and a gradient reset, in this order, and
  nothing of the three otherwise; it then logs the batch loss, and \<open>training_step\<close> is
  one higher, whether or not the optimizer stepped. The batch loop over any well-formed
  list of chunks, and the training pass of every epoch of a well-formed learner, make
  exactly the calls the specification prescribes, batch after batch, with
  \<open>training_step\<close> counted on from batch to batch (the training pass then logs the
  epoch average and, on the checkpoint cadence, saves a checkpoint), and leave
  \<open>training_step\<close> higher by the number of batches.
\<close>

theorem optimizer_step_iff_multiple:
  assumes "GRAD_ACCUMULATION_STEPS (config s) \<noteq> 0"
  shows "(\<exists>s'. training_batch c epoch i batch loss_sum s
              = Inr (py_add (float_round c) loss_sum
                       (forward_loss c (model_training s) (model_values s) batch), s')
          \<and> training_step s' = training_step s + 1
          \<and> trace s' = trace s @ [Backward epoch i]
               @ (if GRAD_ACCUMULATION_STEPS (config s) dvd training_step s
                  then [OptimizerStep (grad_pending s @ [(epoch, i)])]
                       @ (if has_scheduler s then [SchedulerStep] else []) @ [ZeroGrad]
                  else [])
               @ [WandbLog (TrainLoss epoch i (forward_loss c (model_training s) (model_values s) batch))
                    (global_step s)])
       \<and> (\<forall>chs j. chunks_ok (dataset (train_dataloader s)) chs \<longrightarrow>
             (\<exists>ls s' losses. training_loop c epoch j chs loss_sum s = Inr (ls, s')
                \<and> length losses = length chs
                \<and> trace s' = trace s
                     @ expected_training_events (GRAD_ACCUMULATION_STEPS (config s)) (has_scheduler s)
                         epoch (training_step s) (global_step s) j losses (grad_pending s)
                \<and> training_step s' = training_step s + int (length chs)))
       \<and> (learner_ok s \<longrightarrow>
             (\<exists>s' losses. training_epoch c epoch s = Inr s'
                \<and> length losses = dataloader_len (train_dataloader s)
                \<and> trace s' = trace s
                     @ expected_training_events (GRAD_ACCUMULATION_STEPS (config s)) (has_scheduler s)
                         epoch (training_step s) (global_step s) 0 losses (grad_pending s)
                     @ [WandbLog (TrainAvgLoss epoch
                           (float_div (float_round c)
                              (foldl (py_add (float_round c)) (Finite 0) losses)
                              (dataloader_len (train_dataloader s))))
                          (global_step s + int (dataloader_len (train_dataloader s)))]
                     @ (if epoch mod MODEL_SAVE_EPOCH_CNT (config s) = 0
                        then [CheckpointSave epoch
                           (float_div (float_round c)
                              (foldl (py_add (float_round c)) (Finite 0) losses)
                              (dataloader_len (train_dataloader s)))]
                        else [])
                \<and> training_step s' = training_step s + int (dataloader_len (train_dataloader s))))"
proof (intro conjI allI impI)
  show "\<exists>s'. training_batch c epoch i batch loss_sum s
              = Inr (py_add (float_round c) loss_sum
                       (forward_loss c (model_training s) (model_values s) batch), s')
          \<and> training_step s' = training_step s + 1
          \<and> trace s' = trace s @ [Backward epoch i]
               @ (if GRAD_ACCUMULATION_STEPS (config s) dvd training_step s
                  then [OptimizerStep (grad_pending s @ [(epoch, i)])]
                       @ (if has_scheduler s then [SchedulerStep] else []) @ [ZeroGrad]
                  else [])
               @ [WandbLog (TrainLoss epoch i (forward_loss c (model_training s) (model_values s) batch))
                    (global_step s)]"
    using training_batch_effect[OF assms, of c epoch i batch loss_sum] by blast
next
  fix chs j
  assume ok: "chunks_ok (dataset (train_dataloader s)) chs"
  note f = chunks_ok_fetchable[OF ok]
  obtain ls s' losses where l: "training_loop c epoch j chs loss_sum s = Inr (ls, s')"
      "length losses = length chs"
      "trace s' = trace s
         @ expected_training_events (GRAD_ACCUMULATION_STEPS (config s)) (has_scheduler s)
             epoch (training_step s) (global_step s) j losses (grad_pending s)"
    using training_loop_trace[OF assms f, of c epoch j loss_sum] by blast
  obtain ls' s'' where e: "training_loop c epoch j chs loss_sum s = Inr (ls', s'')"
      "training_step s'' = training_step s + int (length chs)"
    using training_loop_effect[OF assms f, of c epoch j loss_sum] by blast
  have "training_step s' = training_step s + int (length chs)" using l(1) e by simp
  then show "\<exists>ls s' losses. training_loop c epoch j chs loss_sum s = Inr (ls, s')
                \<and> length losses = length chs
                \<and> trace s' = trace s
                     @ expected_training_events (GRAD_ACCUMULATION_STEPS (config s)) (has_scheduler s)
                         epoch (training_step s) (global_step s) j losses (grad_pending s)
                \<and> training_step s' = training_step s + int (length chs)"
    using l by blast
next
  assume "learner_ok s"
  then show "\<exists>s' losses. training_epoch c epoch s = Inr s'
                \<and> length losses = dataloader_len (train_dataloader s)
                \<and> trace s' = trace s
                     @ expected_training_events (GRAD_ACCUMULATION_STEPS (config s)) (has_scheduler s)
                         epoch (training_step s) (global_step s) 0 losses (grad_pending s)
                     @ [WandbLog (TrainAvgLoss epoch
                           (float_div (float_round c)
                              (foldl (py_add (float_round c)) (Finite 0) losses)
                              (dataloader_len (train_dataloader s))))
                          (global_step s + int (dataloader_len (train_dataloader s)))]
                     @ (if epoch mod MODEL_SAVE_EPOCH_CNT (config s) = 0
                        then [CheckpointSave epoch
                           (float_div (float_round c)
                              (foldl (py_add (float_round c)) (Finite 0) losses)
                              (dataloader_len (train_dataloader s)))]
                        else [])
                \<and> training_step s' = training_step s + int (dataloader_len (train_dataloader s))"
    by (rule training_epoch_trace)
qed

theorem optimizer_step_iff_multiple_witness:
  "GRAD_ACCUMULATION_STEPS (config (demo_learner 3 (demo_loader demo_ds3 1 [[0], [1], [2]])
                                                    (demo_loader demo_ds1 1 [[0]]))) \<noteq> 0
   \<and> learner_ok (demo_learner 3 (demo_loader demo_ds3 1 [[0], [1], [2]]) (demo_loader demo_ds1 1 [[0]]))
   \<and> (\<exists>s'. training_epoch demo_collab 1
              (demo_learner 3 (demo_loader demo_ds3 1 [[0], [1], [2]]) (demo_loader demo_ds1 1 [[0]]))
             = Inr s'
          \<and> training_step s' = 4
          \<and> trace s' = [Backward 1 0, WandbLog (TrainLoss 1 0 (Finite 2)) 1,
                   Backward 1 1, WandbLog (TrainLoss 1 1 (Finite 2)) 2,
                   Backward 1 2, OptimizerStep [(1, 0), (1, 1), (1, 2)], SchedulerStep,
                   ZeroGrad, WandbLog (TrainLoss 1 2 (Finite 2)) 3,
                   WandbLog (TrainAvgLoss 1 (Finite 2)) 4])"
proof -
  let ?s = "demo_learner 3 (demo_loader demo_ds3 1 [[0], [1], [2]]) (demo_loader demo_ds1 1 [[0]])"
  have k: "GRAD_ACCUMULATION_STEPS (config ?s) \<noteq> 0" by code_simp
  have ok: "learner_ok ?s" by code_simp
  have f: "training_step ?s = 1" "dataloader_len (train_dataloader ?s) = 3" by code_simp+
  have ev: "map_sum id trace (training_epoch demo_collab 1 ?s)
            = Inr [Backward 1 0, WandbLog (TrainLoss 1 0 (Finite 2)) 1,
                   Backward 1 1, WandbLog (TrainLoss 1 1 (Finite 2)) 2,
                   Backward 1 2, OptimizerStep [(1, 0), (1, 1), (1, 2)], SchedulerStep,
                   ZeroGrad, WandbLog (TrainLoss 1 2 (Finite 2)) 3,
                   WandbLog (TrainAvgLoss 1 (Finite 2)) 4]"
    by code_simp
  obtain s' where r: "training_epoch demo_collab 1 ?s = Inr s'"
      "training_step s' = training_step ?s + int (dataloader_len (train_dataloader ?s))"
    using optimizer_step_iff_multiple[OF k, where c = demo_collab and epoch = 1,
            THEN conjunct2, THEN conjunct2, rule_format, OF ok]
    by blast
  have "training_step s' = 4" using r(2) unfolding f by simp
  moreover have "trace s' = [Backward 1 0, WandbLog (TrainLoss 1 0 (Finite 2)) 1,
                   Backward 1 1, WandbLog (TrainLoss 1 1 (Finite 2)) 2,
                   Backward 1 2, OptimizerStep [(1, 0), (1, 1), (1, 2)], SchedulerStep,
                   ZeroGrad, WandbLog (TrainLoss 1 2 (Finite 2)) 3,
                   WandbLog (TrainAvgLoss 1 (Finite 2)) 4]"
    using ev unfolding r(1) by simp
  ultimately show ?thesis using k ok r(1) by blast
qed

lemma fit_effect:
  assumes "learner_ok s"
  shows "\<exists>s' tb. fit c start_epoch n_epochs s = Inr s' \<and> setup_same s s'
           \<and> table s' = Some tb
           \<and> trace s' = butlast (trace s') @ [WandbLogTable tb]
           \<and> table_flushes (trace s') = table_flushes (trace s) @ [tb]
           \<and> 2 * nat n_epochs \<le> length tb \<and> length tb \<le> 4 * nat n_epochs
           \<and> (list_all (\<lambda>ch. 2 \<le> length ch) (batch_of_indices (batch_sampler (train_dataloader s)))
                \<and> list_all (\<lambda>ch. 2 \<le> length ch) (batch_of_indices (batch_sampler (val_dataloader s)))
               \<longrightarrow> length tb = 4 * nat n_epochs)
           \<and> global_step s' = global_step s + int (nat n_epochs
                * (dataloader_len (val_dataloader s) + dataloader_len (train_dataloader s) + 2))
           \<and> training_step s' = training_step s + int (nat n_epochs * dataloader_len (train_dataloader s))
           \<and> log_steps (trace s') = log_steps (trace s)
                @ map (\<lambda>i. global_step s + int i)
                    [0..<nat n_epochs * (dataloader_len (val_dataloader s) + dataloader_len (train_dataloader s) + 2)]"
proof -
  let ?s0 = "s\<lparr>table := Some []\<rparr>"
  let ?es = "[start_epoch..start_epoch + n_epochs - 1]"
  have ok0: "learner_ok ?s0" using assms by (simp add: learner_ok_def)
  have t0: "table ?s0 = Some []" by simp
  have len: "length ?es = nat n_epochs" by simp
  obtain s1 rows where r: "fit_loop c ?es ?s0 = Inr s1" "setup_same ?s0 s1"
      "table s1 = Some ([] @ rows)"
      "2 * length ?es \<le> length rows" "length rows \<le> 4 * length ?es"
      "list_all (\<lambda>ch. 2 \<le> length ch) (batch_of_indices (batch_sampler (train_dataloader ?s0)))
        \<and> list_all (\<lambda>ch. 2 \<le> length ch) (batch_of_indices (batch_sampler (val_dataloader ?s0)))
       \<longrightarrow> length rows = 4 * length ?es"
      "global_step s1 = global_step ?s0 + int (length ?es
          * (dataloader_len (val_dataloader ?s0) + dataloader_len (train_dataloader ?s0) + 2))"
      "training_step s1 = training_step ?s0 + int (length ?es * dataloader_len (train_dataloader ?s0))"
      "log_steps (trace s1) = log_steps (trace ?s0)
         @ map (\<lambda>i. global_step ?s0 + int i)
             [0..<length ?es * (dataloader_len (val_dataloader ?s0) + dataloader_len (train_dataloader ?s0) + 2)]"
      "table_flushes (trace s1) = table_flushes (trace ?s0)"
    using fit_loop_effect[OF ok0 t0, of c ?es] by blast
  let ?s' = "s1\<lparr>trace := trace s1 @ [WandbLogTable rows]\<rparr>"
  have run: "fit c start_epoch n_epochs s = Inr ?s'"
    using r(1,3) by (simp add: fit_def log_event_def Let_def)
  have ss: "setup_same s ?s'" using r(2) by (simp add: setup_same_def)
  show ?thesis
    apply (rule exI[of _ ?s'], rule exI[of _ rows])
    using run ss r(3-) unfolding len by simp
qed

text \<open>
  C4. In a well-formed learner the validation pass and the training pass both complete,
  and each logs at the consecutive step indices \<open>global_step\<close>, \<open>global_step + 1\<close>, ...:
  one index per processed batch and one more for the epoch summary, leaving
  \<open>global_step\<close> higher by the number of batches plus 1. Over a whole run of \<open>fit\<close> the
  indices logged are consecutive from the initial \<open>global_step\<close> on, so the counter is
  never reset and never decreases, and it ends higher by the number of epochs times
  the number of validation batches plus 1 plus the number of training batches plus 1.
\<close>

theorem global_step_advances:
  assumes "learner_ok s"
  shows "(\<exists>s'. validation_epoch c epoch s = Inr s'
            \<and> global_step s' = global_step s + int (dataloader_len (val_dataloader s)) + 1
            \<and> log_steps (trace s') = log_steps (trace s)
                 @ map (\<lambda>i. global_step s + int i) [0..<dataloader_len (val_dataloader s) + 1])
       \<and> (\<exists>s'. training_epoch c epoch s = Inr s'
            \<and> global_step s' = global_step s + int (dataloader_len (train_dataloader s)) + 1
            \<and> log_steps (trace s') = log_steps (trace s)
                 @ map (\<lambda>i. global_step s + int i) [0..<dataloader_len (train_dataloader s) + 1])
       \<and> (\<exists>s'. fit c start_epoch n_epochs s = Inr s'
            \<and> global_step s \<le> global_step s'
            \<and> global_step s' = global_step s + int (nat n_epochs
                 * (dataloader_len (val_dataloader s) + 1 + dataloader_len (train_dataloader s) + 1))
            \<and> log_steps (trace s') = log_steps (trace s)
                 @ map (\<lambda>i. global_step s + int i)
                     [0..<nat n_epochs * (dataloader_len (val_dataloader s) + 1
                                           + dataloader_len (train_dataloader s) + 1)])"
proof -
  have v: "\<exists>s'. validation_epoch c epoch s = Inr s'
            \<and> global_step s' = global_step s + int (dataloader_len (val_dataloader s)) + 1
            \<and> log_steps (trace s') = log_steps (trace s)
                 @ map (\<lambda>i. global_step s + int i) [0..<dataloader_len (val_dataloader s) + 1]"
    using validation_epoch_effect[OF assms, of c epoch] by (simp only: Suc_eq_plus1) blast
  have t: "\<exists>s'. training_epoch c epoch s = Inr s'
            \<and> global_step s' = global_step s + int (dataloader_len (train_dataloader s)) + 1
            \<and> log_steps (trace s') = log_steps (trace s)
                 @ map (\<lambda>i. global_step s + int i) [0..<dataloader_len (train_dataloader s) + 1]"
    using training_epoch_effect[OF assms, of c epoch] by (simp only: Suc_eq_plus1) blast
  let ?m = "dataloader_len (val_dataloader s) + 1 + dataloader_len (train_dataloader s) + 1"
  have m: "dataloader_len (val_dataloader s) + dataloader_len (train_dataloader s) + 2 = ?m" by simp
  obtain s' where f: "fit c start_epoch n_epochs s = Inr s'"
      "global_step s' = global_step s + int (nat n_epochs * ?m)"
      "log_steps (trace s') = log_steps (trace s)
         @ map (\<lambda>i. global_step s + int i) [0..<nat n_epochs * ?m]"
    using fit_effect[OF assms, of c start_epoch n_epochs] unfolding m by blast
  have "global_step s \<le> global_step s'" unfolding f(2) by simp
  then have "\<exists>s'. fit c start_epoch n_epochs s = Inr s'
            \<and> global_step s \<le> global_step s'
            \<and> global_step s' = global_step s + int (nat n_epochs * ?m)
            \<and> log_steps (trace s') = log_steps (trace s)
                 @ map (\<lambda>i. global_step s + int i) [0..<nat n_epochs * ?m]"
    using f by blast
  then show ?thesis using v t by (simp only:)
qed

theorem global_step_advances_witness:
  "learner_ok (demo_learner 1 (demo_loader demo_ds3 1 [[0], [1], [2]]) (demo_loader demo_ds1 1 [[0]]))
   \<and> (\<exists>s'. fit demo_collab 1 2
               (demo_learner 1 (demo_loader demo_ds3 1 [[0], [1], [2]]) (demo_loader demo_ds1 1 [[0]]))
             = Inr s'
          \<and> global_step s' = 13
          \<and> log_steps (trace s') = [1, 2, 3, 4, 5, 6, 7, 8, 9, 10, 11, 12])"
proof -
  let ?s = "demo_learner 1 (demo_loader demo_ds3 1 [[0], [1], [2]]) (demo_loader demo_ds1 1 [[0]])"
  have ok: "learner_ok ?s" by code_simp
  have f: "dataloader_len (val_dataloader ?s) = 1" "dataloader_len (train_dataloader ?s) = 3"
      "global_step ?s = 1" "log_steps (trace ?s) = []"
    by code_simp+
  have m: "map (\<lambda>i. 1 + int i) [0..<nat 2 * (1 + 1 + 3 + 1)] = [1, 2, 3, 4, 5, 6, 7, 8, 9, 10, 11, 12]"
    by code_simp
  obtain s' where "fit demo_collab 1 2 ?s = Inr s'"
      "global_step s' = global_step ?s + int (nat 2
                 * (dataloader_len (val_dataloader ?s) + 1 + dataloader_len (train_dataloader ?s) + 1))"
      "log_steps (trace s') = log_steps (trace ?s)
                 @ map (\<lambda>i. global_step ?s + int i)
                     [0..<nat 2 * (dataloader_len (val_dataloader ?s) + 1
                                           + dataloader_len (train_dataloader ?s) + 1)]"
    using global_step_advances[OF ok, of demo_collab 1 1 2] by blast
  then have "fit demo_collab 1 2 ?s = Inr s' \<and> global_step s' = 13
      \<and> log_steps (trace s') = [1, 2, 3, 4, 5, 6, 7, 8, 9, 10, 11, 12]"
    unfolding f m by simp
  then show ?thesis using ok by blast
qed

text \<open>
  C8 (as amended). In a well-formed learner whose table exists, \<open>track_example\<close> with a
  non-negative \<open>num_examples\<close> adds to the table, for the first batch drawn from each of
  the two loaders, as many rows as the batch has examples but at most \<open>num_examples\<close>:
  at most \<open>2 * num_examples\<close> rows together. A run of \<open>fit\<close>, which tracks with
  \<open>num_examples = 2\<close>, ends with a table of at most \<open>2 * 2\<close> rows per epoch, exactly that
  many when every chunk of both samplers holds at least 2 indices, and passes the
  table to the metrics backend exactly once, as its last call.
\<close>

theorem example_table_rows:
  assumes "learner_ok s" and "table s = Some t" and "0 \<le> num_examples"
  shows "(\<exists>s' rows ct cv. track_example c epoch num_examples s = Inr s'
            \<and> table s' = Some (t @ rows)
            \<and> ct \<in> set (batch_of_indices (batch_sampler (train_dataloader s)))
            \<and> cv \<in> set (batch_of_indices (batch_sampler (val_dataloader s)))
            \<and> length rows = min (nat num_examples) (length ct) + min (nat num_examples) (length cv)
            \<and> length rows \<le> 2 * nat num_examples)
       \<and> (\<exists>s' tb. fit c start_epoch n_epochs s = Inr s'
            \<and> table s' = Some tb
            \<and> table_flushes (trace s') = table_flushes (trace s) @ [tb]
            \<and> trace s' = butlast (trace s') @ [WandbLogTable tb]
            \<and> length tb \<le> 2 * 2 * nat n_epochs
            \<and> (list_all (\<lambda>ch. 2 \<le> length ch) (batch_of_indices (batch_sampler (train_dataloader s)))
                 \<and> list_all (\<lambda>ch. 2 \<le> length ch) (batch_of_indices (batch_sampler (val_dataloader s)))
                \<longrightarrow> length tb = 2 * 2 * nat n_epochs))"
proof -
  obtain s1 rows ct cv where t: "track_example c epoch num_examples s = Inr s1"
      "table s1 = Some (t @ rows)"
      "ct \<in> set (batch_of_indices (batch_sampler (train_dataloader s)))"
      "cv \<in> set (batch_of_indices (batch_sampler (val_dataloader s)))"
      "length rows = min (nat num_examples) (length ct) + min (nat num_examples) (length cv)"
    using track_example_effect[OF assms, of c epoch] by blast
  have "length rows \<le> 2 * nat num_examples" unfolding t(5) by simp
  then have a: "\<exists>s' rows ct cv. track_example c epoch num_examples s = Inr s'
            \<and> table s' = Some (t @ rows)
            \<and> ct \<in> set (batch_of_indices (batch_sampler (train_dataloader s)))
            \<and> cv \<in> set (batch_of_indices (batch_sampler (val_dataloader s)))
            \<and> length rows = min (nat num_examples) (length ct) + min (nat num_examples) (length cv)
            \<and> length rows \<le> 2 * nat num_examples"
    using t by blast
  obtain s' tb where f: "fit c start_epoch n_epochs s = Inr s'" "table s' = Some tb"
      "trace s' = butlast (trace s') @ [WandbLogTable tb]"
      "table_flushes (trace s') = table_flushes (trace s) @ [tb]"
      "length tb \<le> 4 * nat n_epochs"
      "list_all (\<lambda>ch. 2 \<le> length ch) (batch_of_indices (batch_sampler (train_dataloader s)))
         \<and> list_all (\<lambda>ch. 2 \<le> length ch) (batch_of_indices (batch_sampler (val_dataloader s)))
        \<longrightarrow> length tb = 4 * nat n_epochs"
    using fit_effect[OF assms(1), of c start_epoch n_epochs] by blast
  have "length tb \<le> 2 * 2 * nat n_epochs" using f(5) by simp
  moreover have "list_all (\<lambda>ch. 2 \<le> length ch) (batch_of_indices (batch_sampler (train_dataloader s)))
         \<and> list_all (\<lambda>ch. 2 \<le> length ch) (batch_of_indices (batch_sampler (val_dataloader s)))
        \<longrightarrow> length tb = 2 * 2 * nat n_epochs" using f(6) by simp
  ultimately have b: "\<exists>s' tb. fit c start_epoch n_epochs s = Inr s'
            \<and> table s' = Some tb
            \<and> table_flushes (trace s') = table_flushes (trace s) @ [tb]
            \<and> trace s' = butlast (trace s') @ [WandbLogTable tb]
            \<and> length tb \<le> 2 * 2 * nat n_epochs
            \<and> (list_all (\<lambda>ch. 2 \<le> length ch) (batch_of_indices (batch_sampler (train_dataloader s)))
                 \<and> list_all (\<lambda>ch. 2 \<le> length ch) (batch_of_indices (batch_sampler (val_dataloader s)))
                \<longrightarrow> length tb = 2 * 2 * nat n_epochs)"
    using f(1-4) by blast
  show ?thesis using a b by (rule conjI)
qed

theorem example_table_rows_witness:
  "learner_ok ((demo_learner 1 (demo_loader demo_ds3 3 [[0, 1, 2]]) (demo_loader demo_ds3 3 [[0, 1, 2]]))
                 \<lparr>table := Some []\<rparr>)
   \<and> table ((demo_learner 1 (demo_loader demo_ds3 3 [[0, 1, 2]]) (demo_loader demo_ds3 3 [[0, 1, 2]]))
                 \<lparr>table := Some []\<rparr>) = Some []
   \<and> (0::int) \<le> 2
   \<and> (\<exists>s' tb. fit demo_collab 1 1
                 ((demo_learner 1 (demo_loader demo_ds3 3 [[0, 1, 2]]) (demo_loader demo_ds3 3 [[0, 1, 2]]))
                    \<lparr>table := Some []\<rparr>) = Inr s'
          \<and> table s' = Some tb \<and> table_flushes (trace s') = [tb] \<and> length tb = 4)"
proof -
  let ?s = "(demo_learner 1 (demo_loader demo_ds3 3 [[0, 1, 2]]) (demo_loader demo_ds3 3 [[0, 1, 2]]))
              \<lparr>table := Some []\<rparr>"
  have ok: "learner_ok ?s" by code_simp
  have t: "table ?s = Some []" by simp
  have z: "(0::int) \<le> 2" by simp
  have big: "list_all (\<lambda>ch. 2 \<le> length ch) (batch_of_indices (batch_sampler (train_dataloader ?s)))
           \<and> list_all (\<lambda>ch. 2 \<le> length ch) (batch_of_indices (batch_sampler (val_dataloader ?s)))"
    by code_simp
  have e: "table_flushes (trace ?s) = []" by code_simp
  obtain s' tb where "fit demo_collab 1 1 ?s = Inr s'" "table s' = Some tb"
      "table_flushes (trace s') = table_flushes (trace ?s) @ [tb]"
      "list_all (\<lambda>ch. 2 \<le> length ch) (batch_of_indices (batch_sampler (train_dataloader ?s)))
         \<and> list_all (\<lambda>ch. 2 \<le> length ch) (batch_of_indices (batch_sampler (val_dataloader ?s)))
        \<longrightarrow> length tb = 2 * 2 * nat 1"
    using example_table_rows[OF ok t z, of demo_collab 1 1 1] by blast
  then have "fit demo_collab 1 1 ?s = Inr s' \<and> table s' = Some tb
      \<and> table_flushes (trace s') = [tb] \<and> length tb = 4"
    using big e by simp
  then show ?thesis using ok t z by blast
qed

text \<open>
  C8 as stated fails when a first batch holds fewer examples than \<open>num_examples\<close>: with
  three training examples and one validation example in batches of 2, the first
  training batch drawn is the short last chunk, and the epoch adds 2 rows, not 4.
\<close>

theorem example_table_rows_counterexample:
  "map_sum id table
     (fit demo_collab 1 1
        (demo_learner 1 (demo_loader demo_ds3 2 [[0, 1], [2]]) (demo_loader demo_ds1 2 [[0]])))
   = Inr (Some [(1, Train, ''4'', ''12'', ''4''), (1, Validation, ''567'', ''182'', ''567'')])
   \<and> CustomBatchSampler_init (length demo_ds3) 2
       = Inr (batch_sampler (demo_loader demo_ds3 2 [[0, 1], [2]]))
   \<and> CustomBatchSampler_init (length demo_ds1) 2
       = Inr (batch_sampler (demo_loader demo_ds1 2 [[0]]))
   \<and> length [(1::int, Train, ''4'', ''12'', ''4''), (1, Validation, ''567'', ''182'', ''567'')]
       \<noteq> 2 * 2"
  by code_simp

lemma mod_step:
  fixes a k :: int
  assumes "1 \<le> k" "\<not> k dvd a"
  shows "(a - 1) mod k + 1 = a mod k"
proof -
  have kp: "0 < k" using assms(1) by simp
  have r: "0 \<le> (a - 1) mod k" "(a - 1) mod k < k" using kp by simp_all
  have e: "a mod k = ((a - 1) mod k + 1) mod k"
    by (metis diff_add_cancel mod_add_left_eq)
  show ?thesis
  proof (cases "(a - 1) mod k + 1 < k")
    case True
    then show ?thesis using e r(1) by simp
  next
    case False
    then have "(a - 1) mod k + 1 = k" using r(2) by simp
    then have "a mod k = 0" using e by simp
    then show ?thesis using assms(2) by (simp add: dvd_eq_mod_eq_0)
  qed
qed

lemma training_loop_pending:
  assumes "1 \<le> GRAD_ACCUMULATION_STEPS (config s)"
    and "training_loop c epoch j chs l s = Inr (ls, s')"
    and "int (length (grad_pending s)) = (training_step s - 1) mod GRAD_ACCUMULATION_STEPS (config s)"
  shows "int (length (grad_pending s')) = (training_step s' - 1) mod GRAD_ACCUMULATION_STEPS (config s)
         \<and> (\<exists>applied. grad_pending s @ map (Pair epoch) [j..<j + length chs] = applied @ grad_pending s')"
  using assms
proof (induction chs arbitrary: j l s)
  case Nil
  then show ?case by simp
next
  case (Cons ch chs)
  let ?k = "GRAD_ACCUMULATION_STEPS (config s)"
  have k0: "?k \<noteq> 0" using Cons.prems(1) by simp
  obtain b where b: "fetch (dataset (train_dataloader s)) ch = Inr b"
    using Cons.prems(2) by (cases "fetch (dataset (train_dataloader s)) ch") simp_all
  obtain l1 s1 where s1: "training_batch c epoch j b l s = Inr (l1, s1)"
      "training_step s1 = training_step s + 1"
      "grad_pending s1 = (if ?k dvd training_step s then [] else grad_pending s @ [(epoch, j)])"
      "config s1 = config s"
    using training_batch_effect[OF k0, of c epoch j b l] by blast
  have run: "training_loop c epoch (Suc j) chs l1 s1 = Inr (ls, s')"
    using Cons.prems(2) b s1(1) by simp
  have inv1: "int (length (grad_pending s1)) = (training_step s1 - 1) mod GRAD_ACCUMULATION_STEPS (config s1)"
  proof (cases "?k dvd training_step s")
    case True
    then show ?thesis using s1(2,3,4) by (simp add: dvd_eq_mod_eq_0)
  next
    case False
    then show ?thesis using s1(2,3,4) Cons.prems(3) mod_step[OF Cons.prems(1) False] by simp
  qed
  have k1: "1 \<le> GRAD_ACCUMULATION_STEPS (config s1)" using Cons.prems(1) s1(4) by simp
  obtain applied where ih: "int (length (grad_pending s')) = (training_step s' - 1) mod GRAD_ACCUMULATION_STEPS (config s1)"
      "grad_pending s1 @ map (Pair epoch) [Suc j..<Suc j + length chs] = applied @ grad_pending s'"
    using Cons.IH[OF k1 run inv1] by blast
  have up: "[j..<j + length (ch # chs)] = j # [Suc j..<Suc j + length chs]"
    by (subst upt_rec) simp
  have "\<exists>applied'. grad_pending s @ map (Pair epoch) [j..<j + length (ch # chs)] = applied' @ grad_pending s'"
  proof (cases "?k dvd training_step s")
    case True
    then have "grad_pending s @ map (Pair epoch) [j..<j + length (ch # chs)]
                = (grad_pending s @ [(epoch, j)] @ applied) @ grad_pending s'"
      using ih(2) s1(3) unfolding up by simp
    then show ?thesis by blast
  next
    case False
    then have "grad_pending s @ map (Pair epoch) [j..<j + length (ch # chs)] = applied @ grad_pending s'"
      using ih(2) s1(3) unfolding up by simp
    then show ?thesis by blast
  qed
  then show ?case using ih(1) s1(4) by simp
qed

lemma training_epoch_pending:
  assumes "learner_ok s" "1 \<le> GRAD_ACCUMULATION_STEPS (config s)"
    and "int (length (grad_pending s)) = (training_step s - 1) mod GRAD_ACCUMULATION_STEPS (config s)"
    and "training_epoch c epoch s = Inr s'"
  shows "int (length (grad_pending s')) = (training_step s' - 1) mod GRAD_ACCUMULATION_STEPS (config s)
         \<and> (\<exists>applied. grad_pending s @ map (Pair epoch) [0..<dataloader_len (train_dataloader s)]
                          = applied @ grad_pending s')"
proof -
  obtain chs tdl r' where it: "dataloader_iter (rng_state s) (train_dataloader s) = (chs, tdl, r')"
    by (cases "dataloader_iter (rng_state s) (train_dataloader s)")
  let ?s1 = "s\<lparr>model_training := True, train_dataloader := tdl, rng_state := r'\<rparr>"
  have len: "length chs = dataloader_len (train_dataloader s)" by (rule dataloader_iter_props(5)[OF it])
  obtain ls s2 where l: "training_loop c epoch 0 chs (Finite 0) ?s1 = Inr (ls, s2)"
    using assms(4) it
    by (cases "training_loop c epoch 0 chs (Finite 0) ?s1") (auto simp: training_epoch_def Let_def)
  have k1: "1 \<le> GRAD_ACCUMULATION_STEPS (config ?s1)" using assms(2) by simp
  have i1: "int (length (grad_pending ?s1)) = (training_step ?s1 - 1) mod GRAD_ACCUMULATION_STEPS (config ?s1)"
    using assms(3) by simp
  note p = training_loop_pending[OF k1 l i1]
  have "grad_pending s' = grad_pending s2 \<and> training_step s' = training_step s2"
    using assms(4) it l
    by (auto simp: training_epoch_def Let_def py_truediv_def py_mod_def log_event_def ebind_def
             save_best_model_frame split: if_splits)
  then show ?thesis using p len by simp
qed

text \<open>
  C10 (as amended). Take an epoch of \<open>fit\<close> begun in a well-formed state with a positive
  accumulation factor, in which the gradient buffers hold as many contributions as
  \<open>training_step - 1\<close> leaves modulo the factor (true of a new learner and kept by every
  epoch). Example tracking and validation leave the buffers and \<open>training_step\<close> as
  they are, so what an earlier epoch left pending enters the training pass. After the
  training pass the buffers again hold \<open>(training_step - 1) mod factor\<close> contributions,
  the latest ones, neither applied nor reset: none exactly when the number of training
  batches run since the learner was created is a multiple of the factor. For the first
  epoch of a new learner that is exactly when its batch count is a multiple of the
  factor. In the next batch, whatever its position in its epoch, the optimizer steps
  and the buffers are reset exactly when the factor divides \<open>training_step\<close>, and
  otherwise the batch's contribution joins the pending ones.
\<close>

theorem pending_gradients_follow_global_count:
  assumes "learner_ok s" and "table s = Some t"
    and "1 \<le> GRAD_ACCUMULATION_STEPS (config s)"
    and "int (length (grad_pending s)) = (training_step s - 1) mod GRAD_ACCUMULATION_STEPS (config s)"
  shows "\<exists>s1 s2 s3. track_example c epoch 2 s = Inr s1 \<and> validation_epoch c epoch s1 = Inr s2
           \<and> training_epoch c epoch s2 = Inr s3
           \<and> grad_pending s2 = grad_pending s \<and> training_step s2 = training_step s
           \<and> training_step s3 = training_step s + int (dataloader_len (train_dataloader s))
           \<and> int (length (grad_pending s3))
               = (training_step s3 - 1) mod GRAD_ACCUMULATION_STEPS (config s)
           \<and> (grad_pending s3 = [] \<longleftrightarrow> GRAD_ACCUMULATION_STEPS (config s) dvd training_step s3 - 1)
           \<and> (\<exists>applied. grad_pending s @ map (Pair epoch) [0..<dataloader_len (train_dataloader s)]
                           = applied @ grad_pending s3)
           \<and> (training_step s = 1 \<longrightarrow>
                 (grad_pending s3 \<noteq> [] \<longleftrightarrow>
                    \<not> GRAD_ACCUMULATION_STEPS (config s) dvd int (dataloader_len (train_dataloader s))))
           \<and> (\<forall>i batch l. \<exists>l' s'. training_batch c epoch i batch l s3 = Inr (l', s')
                 \<and> grad_pending s' = (if GRAD_ACCUMULATION_STEPS (config s) dvd training_step s3
                                        then [] else grad_pending s3 @ [(epoch, i)]))"
proof -
  let ?k = "GRAD_ACCUMULATION_STEPS (config s)"
  let ?nt = "dataloader_len (train_dataloader s)"
  obtain s1 where t: "track_example c epoch 2 s = Inr s1" "setup_same s s1"
      "training_step s1 = training_step s" "grad_pending s1 = grad_pending s"
    using track_example_effect[OF assms(1,2), of 2 c epoch] by auto
  have ok1: "learner_ok s1" by (rule setup_same_ok[OF t(2) assms(1)])
  obtain s2 where v: "validation_epoch c epoch s1 = Inr s2" "setup_same s1 s2"
      "training_step s2 = training_step s1" "grad_pending s2 = grad_pending s1"
    using validation_epoch_effect[OF ok1, of c epoch] by blast
  have ok2: "learner_ok s2" by (rule setup_same_ok[OF v(2) ok1])
  have ss2: "setup_same s s2" using t(2) v(2) setup_same_trans by blast
  have c2: "config s2 = config s" using ss2 by (simp add: setup_same_def)
  have n2: "dataloader_len (train_dataloader s2) = ?nt" by (rule setup_same_lens(1)[OF ss2])
  obtain s3 where r: "training_epoch c epoch s2 = Inr s3" "setup_same s2 s3"
      "training_step s3 = training_step s2 + int (dataloader_len (train_dataloader s2))"
    using training_epoch_effect[OF ok2, of c epoch] by blast
  have c3: "config s3 = config s" using r(2) c2 by (simp add: setup_same_def)
  have k2: "1 \<le> GRAD_ACCUMULATION_STEPS (config s2)" using assms(3) c2 by simp
  have i2: "int (length (grad_pending s2)) = (training_step s2 - 1) mod GRAD_ACCUMULATION_STEPS (config s2)"
    using assms(4) t(3,4) v(3,4) c2 by simp
  have p: "int (length (grad_pending s3)) = (training_step s3 - 1) mod ?k"
      "\<exists>applied. grad_pending s @ map (Pair epoch) [0..<?nt] = applied @ grad_pending s3"
    using training_epoch_pending[OF ok2 k2 i2 r(1)] c2 n2 t(4) v(4) by simp_all
  have ts3: "training_step s3 = training_step s + int ?nt" using r(3) v(3) t(3) n2 by simp
  have e: "grad_pending s3 = [] \<longleftrightarrow> ?k dvd training_step s3 - 1"
  proof -
    have "grad_pending s3 = [] \<longleftrightarrow> int (length (grad_pending s3)) = 0" by simp
    also have "\<dots> \<longleftrightarrow> (training_step s3 - 1) mod ?k = 0" by (simp only: p(1))
    also have "\<dots> \<longleftrightarrow> ?k dvd training_step s3 - 1" by (simp only: dvd_eq_mod_eq_0)
    finally show ?thesis .
  qed
  have f: "training_step s = 1 \<longrightarrow> (grad_pending s3 \<noteq> [] \<longleftrightarrow> \<not> ?k dvd int ?nt)"
    using e ts3 by simp
  have k3: "GRAD_ACCUMULATION_STEPS (config s3) \<noteq> 0" using assms(3) c3 by simp
  have b: "\<exists>l' s'. training_batch c epoch i batch l s3 = Inr (l', s')
                 \<and> grad_pending s' = (if ?k dvd training_step s3 then [] else grad_pending s3 @ [(epoch, i)])"
    for i batch l
    using training_batch_effect[OF k3, of c epoch i batch l] c3 by auto
  show ?thesis
    apply (rule exI[of _ s1], rule exI[of _ s2], rule exI[of _ s3])
    using t(1) v(1) r(1) t(3,4) v(3,4) ts3 p e f b by (simp only:) blast
qed

theorem pending_gradients_follow_global_count_witness:
  "learner_ok ((demo_learner 2 (demo_loader demo_ds3 1 [[0], [1], [2]]) (demo_loader demo_ds1 1 [[0]]))
                 \<lparr>table := Some []\<rparr>)
   \<and> table ((demo_learner 2 (demo_loader demo_ds3 1 [[0], [1], [2]]) (demo_loader demo_ds1 1 [[0]]))
                 \<lparr>table := Some []\<rparr>) = Some []
   \<and> (1::int) \<le> 2
   \<and> (\<exists>s1 s2 s3.
          track_example demo_collab 1 2
            ((demo_learner 2 (demo_loader demo_ds3 1 [[0], [1], [2]]) (demo_loader demo_ds1 1 [[0]]))
               \<lparr>table := Some []\<rparr>) = Inr s1
          \<and> validation_epoch demo_collab 1 s1 = Inr s2 \<and> training_epoch demo_collab 1 s2 = Inr s3
          \<and> training_step s3 = 4 \<and> length (grad_pending s3) = 1)"
proof -
  let ?s = "(demo_learner 2 (demo_loader demo_ds3 1 [[0], [1], [2]]) (demo_loader demo_ds1 1 [[0]]))
              \<lparr>table := Some []\<rparr>"
  have ok: "learner_ok ?s" by code_simp
  have t: "table ?s = Some []" by simp
  have f: "GRAD_ACCUMULATION_STEPS (config ?s) = 2" "training_step ?s = 1" "grad_pending ?s = []"
      "dataloader_len (train_dataloader ?s) = 3"
    by code_simp+
  have k: "1 \<le> GRAD_ACCUMULATION_STEPS (config ?s)" unfolding f by simp
  have i: "int (length (grad_pending ?s)) = (training_step ?s - 1) mod GRAD_ACCUMULATION_STEPS (config ?s)"
    unfolding f by simp
  obtain s1 s2 s3 where "track_example demo_collab 1 2 ?s = Inr s1"
      "validation_epoch demo_collab 1 s1 = Inr s2" "training_epoch demo_collab 1 s2 = Inr s3"
      "training_step s3 = training_step ?s + int (dataloader_len (train_dataloader ?s))"
      "int (length (grad_pending s3)) = (training_step s3 - 1) mod GRAD_ACCUMULATION_STEPS (config ?s)"
    using pending_gradients_follow_global_count[OF ok t k i, of demo_collab 1] by blast
  then have "track_example demo_collab 1 2 ?s = Inr s1 \<and> validation_epoch demo_collab 1 s1 = Inr s2
      \<and> training_epoch demo_collab 1 s2 = Inr s3 \<and> training_step s3 = 4 \<and> length (grad_pending s3) = 1"
    unfolding f by simp
  moreover have "(1::int) \<le> 2" by simp
  ultimately show ?thesis using ok t by blast
qed

text \<open>
  C10 as stated fails for an epoch that is not the first: with factor 2 and 3 training
  batches per epoch, the first epoch ends with the contribution of its last batch
  pending, and the second epoch, whose batch count 3 is not a multiple of 2, ends with
  nothing pending.
\<close>

theorem pending_gradients_counterexample:
  "map_sum id grad_pending
     (fit demo_collab 1 2
        (demo_learner 2 (demo_loader demo_ds3 1 [[0], [1], [2]]) (demo_loader demo_ds1 1 [[0]])))
   = Inr []
   \<and> map_sum id grad_pending
     (fit demo_collab 1 1
        (demo_learner 2 (demo_loader demo_ds3 1 [[0], [1], [2]]) (demo_loader demo_ds1 1 [[0]])))
   = Inr [(1, 2)]
   \<and> dataloader_len (train_dataloader
        (demo_learner 2 (demo_loader demo_ds3 1 [[0], [1], [2]]) (demo_loader demo_ds1 1 [[0]]))) = 3
   \<and> GRAD_ACCUMULATION_STEPS (config
        (demo_learner 2 (demo_loader demo_ds3 1 [[0], [1], [2]]) (demo_loader demo_ds1 1 [[0]]))) = 2
   \<and> \<not> (2::int) dvd 3"
  by code_simp

section \<open>The best-model snapshot and the store\<close>

text \<open>Deep copies: fresh addresses, the same values, nothing below the old limit written.\<close>

lemma deepcopy_entries_props:
  assumes "list_all (\<lambda>(k, a). a < nf0) sd" "nf0 \<le> nf"
    and "\<forall>(a, a') \<in> set memo. a < nf0 \<and> nf0 \<le> a' \<and> a' < nf \<and> h a' = h a"
    and "deepcopy_entries memo sd h nf = (sd', h', nf')"
  shows "nf \<le> nf' \<and> (\<forall>x < nf. h' x = h x)
         \<and> list_all (\<lambda>(k, a'). nf0 \<le> a' \<and> a' < nf') sd'
         \<and> sd_values sd' h' = sd_values sd h"
  using assms
proof (induction sd arbitrary: memo h nf sd' h' nf')
  case Nil
  then show ?case by (simp add: sd_values_def)
next
  case (Cons e sd)
  obtain k a where e: "e = (k, a)" by (cases e)
  have a: "a < nf0" and rest: "list_all (\<lambda>(k, a). a < nf0) sd" using Cons.prems(1) e by simp_all
  show ?case
  proof (cases "map_of memo a")
    case (Some a')
    obtain sd1 h1 nf1 where r: "deepcopy_entries memo sd h nf = (sd1, h1, nf1)"
      by (cases "deepcopy_entries memo sd h nf")
    have res: "sd' = (k, a') # sd1" "h' = h1" "nf' = nf1"
      using Cons.prems(4) e Some r by simp_all
    have m: "(a, a') \<in> set memo" using Some by (rule map_of_SomeD)
    then have ma: "nf0 \<le> a'" "a' < nf" "h a' = h a" using Cons.prems(3) by auto
    note ih = Cons.IH[OF rest Cons.prems(2,3) r]
    have "h1 a' = h a" using ih ma by simp
    then show ?thesis using ih ma res e by (auto simp: sd_values_def)
  next
    case None
    let ?h = "h(nf := h a)"
    obtain sd1 h1 nf1 where r: "deepcopy_entries ((a, nf) # memo) sd ?h (Suc nf) = (sd1, h1, nf1)"
      by (cases "deepcopy_entries ((a, nf) # memo) sd ?h (Suc nf)")
    have res: "sd' = (k, nf) # sd1" "h' = h1" "nf' = nf1"
      using Cons.prems(4) e None r by simp_all
    have ane: "a \<noteq> nf" using a Cons.prems(2) by simp
    have memo': "\<forall>(b, b') \<in> set ((a, nf) # memo). b < nf0 \<and> nf0 \<le> b' \<and> b' < Suc nf \<and> ?h b' = ?h b"
      using Cons.prems(2,3) a ane by auto
    have le: "nf0 \<le> Suc nf" using Cons.prems(2) by simp
    have ih: "Suc nf \<le> nf1" "\<forall>x < Suc nf. h1 x = ?h x"
        "list_all (\<lambda>(k, a'). nf0 \<le> a' \<and> a' < nf1) sd1"
        "sd_values sd1 h1 = sd_values sd ?h"
      using Cons.IH[OF rest le memo' r] by blast+
    have v1: "h1 nf = h a" using ih(2) by simp
    have s0: "sd_values sd ?h = sd_values sd h"
      using rest Cons.prems(2) by (auto simp: sd_values_def list_all_iff)
    have v2: "sd_values sd1 h1 = sd_values sd h" using ih(4) s0 by (rule trans)
    have lo: "\<forall>x < nf. h1 x = h x" using ih(2) by simp
    have fresh: "list_all (\<lambda>(k, a'). nf0 \<le> a' \<and> a' < nf1) ((k, nf) # sd1)"
      using ih(1,3) Cons.prems(2) by simp
    have le': "nf \<le> nf1" using ih(1) by simp
    show ?thesis using le' v1 v2 lo fresh res e by (simp add: sd_values_def)
  qed
qed

lemma deepcopy_props:
  assumes "list_all (\<lambda>(k, a). a < nf) sd" "deepcopy sd h nf = (sd', h', nf')"
  shows "nf \<le> nf'" "\<forall>x < nf. h' x = h x"
        "list_all (\<lambda>(k, a'). nf \<le> a' \<and> a' < nf') sd'"
        "sd_values sd' h' = sd_values sd h"
  using deepcopy_entries_props[OF assms(1) order_refl, of "[]" h sd' h' nf'] assms(2)
  by (simp_all add: deepcopy_def)

lemma sd_values_cong:
  "list_all (\<lambda>(k, a). h' a = h a) sd \<Longrightarrow> sd_values sd h' = sd_values sd h"
  by (auto simp: sd_values_def list_all_iff)

lemma train_avg_losses_append [simp]:
  "train_avg_losses (xs @ ys) = train_avg_losses xs @ train_avg_losses ys"
  by (induction xs rule: train_avg_losses.induct) simp_all

lemma train_batch_losses_append [simp]:
  "train_batch_losses (xs @ ys) = train_batch_losses xs @ train_batch_losses ys"
  by (induction xs rule: train_batch_losses.induct) simp_all

lemma fold_update_other:
  "a \<notin> snd ` set sd \<Longrightarrow> fold (\<lambda>(k, b) h. h(b := f k (h b))) sd h a = h a"
  by (induction sd arbitrary: h) auto

lemma training_batch_cells:
  assumes "training_batch c epoch i batch l s = Inr (l', s')" "a \<notin> snd ` set (model_sd s)"
  shows "cells s' a = cells s a"
  using assms fold_update_other[of a "model_sd s"]
  by (auto simp: learner_ops ebind_def split: if_splits)


lemma training_loop_store:
  assumes "GRAD_ACCUMULATION_STEPS (config s) \<noteq> 0"
    and "training_loop c epoch j chs l s = Inr (ls, s')"
  shows "(\<forall>a. a \<notin> snd ` set (model_sd s) \<longrightarrow> cells s' a = cells s a)
         \<and> train_avg_losses (trace s') = train_avg_losses (trace s)
         \<and> (\<exists>losses. train_batch_losses (trace s') = train_batch_losses (trace s) @ losses
                \<and> length losses = length chs \<and> ls = foldl (py_add (float_round c)) l losses)"
  using assms
proof (induction chs arbitrary: j l s)
  case Nil
  then show ?case by simp
next
  case (Cons ch chs)
  obtain b where b: "fetch (dataset (train_dataloader s)) ch = Inr b"
    using Cons.prems(2) by (cases "fetch (dataset (train_dataloader s)) ch") simp_all
  let ?loss = "forward_loss c (model_training s) (model_values s) b"
  obtain s1 where s1: "training_batch c epoch j b l s = Inr (py_add (float_round c) l ?loss, s1)"
      "trace s1 = trace s @ [Backward epoch j]
               @ (if GRAD_ACCUMULATION_STEPS (config s) dvd training_step s
                  then [OptimizerStep (grad_pending s @ [(epoch, j)])]
                       @ (if has_scheduler s then [SchedulerStep] else []) @ [ZeroGrad]
                  else [])
               @ [WandbLog (TrainLoss epoch j ?loss) (global_step s)]"
      "config s1 = config s" "model_sd s1 = model_sd s"
    using training_batch_effect[OF Cons.prems(1), of c epoch j b l] by blast
  have run: "training_loop c epoch (Suc j) chs (py_add (float_round c) l ?loss) s1 = Inr (ls, s')"
    using Cons.prems(2) b s1(1) by simp
  have k1: "GRAD_ACCUMULATION_STEPS (config s1) \<noteq> 0" using Cons.prems(1) s1(3) by simp
  have t1: "train_avg_losses (trace s1) = train_avg_losses (trace s)"
      "train_batch_losses (trace s1) = train_batch_losses (trace s) @ [?loss]"
    unfolding s1(2) by simp_all
  have ih: "\<forall>a. a \<notin> snd ` set (model_sd s1) \<longrightarrow> cells s' a = cells s1 a"
      "train_avg_losses (trace s') = train_avg_losses (trace s1)"
      "\<exists>losses. train_batch_losses (trace s') = train_batch_losses (trace s1) @ losses
                \<and> length losses = length chs \<and> ls = foldl (py_add (float_round c)) (py_add (float_round c) l ?loss) losses"
    using Cons.IH[OF k1 run] by blast+
  obtain losses where ls: "train_batch_losses (trace s') = train_batch_losses (trace s1) @ losses"
      "length losses = length chs" "ls = foldl (py_add (float_round c)) (py_add (float_round c) l ?loss) losses"
    using ih(3) by blast
  have c: "\<forall>a. a \<notin> snd ` set (model_sd s) \<longrightarrow> cells s' a = cells s a"
    using ih(1) s1(4) training_batch_cells[OF s1(1)] by simp
  have "train_batch_losses (trace s') = train_batch_losses (trace s) @ (?loss # losses)
        \<and> length (?loss # losses) = length (ch # chs) \<and> ls = foldl (py_add (float_round c)) l (?loss # losses)"
    using ls t1(2) by simp
  then have "\<exists>losses. train_batch_losses (trace s') = train_batch_losses (trace s) @ losses
                \<and> length losses = length (ch # chs) \<and> ls = foldl (py_add (float_round c)) l losses"
    by blast
  then show ?case using c ih(2) t1(1) by simp
qed

lemma store_ok_snapshot_kept:
  assumes "store_ok s" "\<forall>a. a \<notin> snd ` set (model_sd s) \<longrightarrow> h' a = cells s a"
  shows "sd_values (best_model_state_dict s) h' = sd_values (best_model_state_dict s) (cells s)"
  using assms by (intro sd_values_cong) (auto simp: store_ok_def list_all_iff)

lemma save_best_model_store:
  assumes "store_ok s"
  shows "store_ok (save_best_model l s)
         \<and> model_values (save_best_model l s) = model_values s
         \<and> (if py_lt l (best_val_loss s)
             then best_val_loss (save_best_model l s) = l
                  \<and> sd_values (best_model_state_dict (save_best_model l s)) (cells (save_best_model l s))
                      = model_values s
             else save_best_model l s = s)"
proof (cases "py_lt l (best_val_loss s)")
  case False
  then show ?thesis using assms by (simp add: save_best_model_def)
next
  case True
  obtain best h' nf' where d: "deepcopy (model_sd s) (cells s) (next_free s) = (best, h', nf')"
    by (cases "deepcopy (model_sd s) (cells s) (next_free s)")
  have m: "list_all (\<lambda>(k, a). a < next_free s) (model_sd s)" using assms by (simp add: store_ok_def)
  note p = deepcopy_props[OF m d]
  let ?s' = "s\<lparr>best_val_loss := l, best_model_state_dict := best, cells := h', next_free := nf'\<rparr>"
  have e: "save_best_model l s = ?s'" using True d by (simp add: save_best_model_def)
  have mv: "model_values ?s' = model_values s"
    unfolding model_values_def using m p(2) by (auto simp: sd_values_def list_all_iff)
  have bv: "sd_values best h' = model_values s" using p(4) by (simp add: model_values_def)
  have ok: "store_ok ?s'"
    using m p(1,3) by (fastforce simp: store_ok_def list_all_iff)
  show ?thesis unfolding e using True ok mv bv by simp
qed

lemma Learner_init_store_ok:
  assumes "list_all (\<lambda>(k, a). a < nf) sd"
  shows "store_ok (Learner_init cfg sd h nf train_dl val_dl sched r)"
proof -
  obtain best h' nf' where d: "deepcopy sd h nf = (best, h', nf')" by (cases "deepcopy sd h nf")
  note p = deepcopy_props[OF assms d]
  show ?thesis
    using assms p(1,3) d by (fastforce simp: Learner_init_def store_ok_def list_all_iff)
qed

lemma training_batch_snapshot:
  assumes "GRAD_ACCUMULATION_STEPS (config s) \<noteq> 0" "store_ok s"
  shows "\<exists>l' s1. training_batch c e i b l s = Inr (l', s1)
           \<and> best_model_state_dict s1 = best_model_state_dict s
           \<and> snapshot_values s1 = snapshot_values s \<and> store_ok s1"
proof -
  obtain l' s1 where r: "training_batch c e i b l s = Inr (l', s1)"
      "model_sd s1 = model_sd s" "next_free s1 = next_free s"
      "best_model_state_dict s1 = best_model_state_dict s"
    using training_batch_effect[OF assms(1), of c e i b l] by blast
  have "\<forall>a. a \<notin> snd ` set (model_sd s) \<longrightarrow> cells s1 a = cells s a"
    using training_batch_cells[OF r(1)] by blast
  then have "snapshot_values s1 = snapshot_values s"
    unfolding snapshot_values_def r(4) by (rule store_ok_snapshot_kept[OF assms(2)])
  moreover have "store_ok s1" using assms(2) r(2,3,4) by (simp add: store_ok_def)
  ultimately show ?thesis using r(1,4) by blast
qed

lemma training_epoch_snapshot:
  assumes "learner_ok s" "store_ok s"
  shows "\<exists>s' loss_avg losses. training_epoch c epoch s = Inr s'
           \<and> train_batch_losses (trace s') = train_batch_losses (trace s) @ losses
           \<and> length losses = dataloader_len (train_dataloader s)
           \<and> loss_avg = float_div (float_round c) (foldl (py_add (float_round c)) (Finite 0) losses)
                          (dataloader_len (train_dataloader s))
           \<and> train_avg_losses (trace s') = train_avg_losses (trace s) @ [(epoch, loss_avg)]
           \<and> (if py_lt loss_avg (best_val_loss s)
               then best_val_loss s' = loss_avg \<and> snapshot_values s' = model_values s'
               else best_val_loss s' = best_val_loss s
                    \<and> best_model_state_dict s' = best_model_state_dict s
                    \<and> snapshot_values s' = snapshot_values s)
           \<and> learner_ok s' \<and> store_ok s'"
proof -
  let ?n = "dataloader_len (train_dataloader s)"
  have okt: "dataloader_ok (train_dataloader s)"
    and k: "GRAD_ACCUMULATION_STEPS (config s) \<noteq> 0" and sv: "MODEL_SAVE_EPOCH_CNT (config s) \<noteq> 0"
    using assms(1) by (simp_all add: learner_ok_def)
  obtain chs tdl r' where it: "dataloader_iter (rng_state s) (train_dataloader s) = (chs, tdl, r')"
    by (cases "dataloader_iter (rng_state s) (train_dataloader s)")
  note ip = dataloader_iter_props[OF it]
  let ?s1 = "s\<lparr>model_training := True, train_dataloader := tdl, rng_state := r'\<rparr>"
  have k1: "GRAD_ACCUMULATION_STEPS (config ?s1) \<noteq> 0" using k by simp
  have f: "list_all (\<lambda>c. c \<noteq> [] \<and> list_all (\<lambda>i. i < length (dataset (train_dataloader ?s1))) c) chs"
    using chunks_ok_fetchable[OF dataloader_iter_ok(2)[OF it okt]] by simp
  obtain ls s2 where l: "training_loop c epoch 0 chs (Finite 0) ?s1 = Inr (ls, s2)"
      "config s2 = config ?s1" "model_sd s2 = model_sd ?s1"
      "train_dataloader s2 = train_dataloader ?s1"
      "next_free s2 = next_free ?s1" "best_val_loss s2 = best_val_loss ?s1"
      "best_model_state_dict s2 = best_model_state_dict ?s1"
    using training_loop_effect[OF k1 f, of c epoch 0 "Finite 0"] by blast
  have st: "\<forall>a. a \<notin> snd ` set (model_sd ?s1) \<longrightarrow> cells s2 a = cells ?s1 a"
      "train_avg_losses (trace s2) = train_avg_losses (trace ?s1)"
    using training_loop_store[OF k1 l(1)] by blast+
  obtain losses where ls: "train_batch_losses (trace s2) = train_batch_losses (trace ?s1) @ losses"
      "length losses = length chs" "ls = foldl (py_add (float_round c)) (Finite 0) losses"
    using training_loop_store[OF k1 l(1)] by blast
  have len: "length chs = ?n" by (rule ip(5))
  have n2: "dataloader_len (train_dataloader s2) = ?n" using l(4) ip(4) by simp
  have pos: "0 < ?n" by (rule dataloader_ok_len[OF okt])
  let ?avg = "float_div (float_round c) ls ?n"
  let ?s4 = "s2\<lparr>trace := trace s2 @ [WandbLog (TrainAvgLoss epoch ?avg) (global_step s2)],
               global_step := global_step s2 + 1\<rparr>"
  let ?s5 = "if epoch mod MODEL_SAVE_EPOCH_CNT (config s) = 0
             then ?s4\<lparr>trace := trace ?s4 @ [CheckpointSave epoch ?avg]\<rparr> else ?s4"
  let ?s6 = "save_best_model ?avg ?s5"
  have run: "training_epoch c epoch s = Inr ?s6"
    using it l(1,2) n2 pos sv by (simp add: training_epoch_def py_truediv_def py_mod_def log_event_def Let_def)
  have ok5: "store_ok ?s5" using assms(2) l(3,5,7) by (simp add: store_ok_def)
  have snap5: "snapshot_values ?s5 = snapshot_values s"
  proof -
    have "sd_values (best_model_state_dict s) (cells s2) = sd_values (best_model_state_dict s) (cells s)"
      using st(1) by (intro store_ok_snapshot_kept[OF assms(2)]) simp
    then show ?thesis using l(7) by (simp add: snapshot_values_def)
  qed
  have f5: "best_val_loss ?s5 = best_val_loss s" "best_model_state_dict ?s5 = best_model_state_dict s"
    using l(6,7) by simp_all
  note sb = save_best_model_store[OF ok5, of ?avg]
  note fr = save_best_model_frame[of ?avg ?s5]
  have tr6: "trace ?s6 = trace ?s5" using fr by simp
  have tb: "train_batch_losses (trace ?s6) = train_batch_losses (trace s) @ losses"
    unfolding tr6 using ls(1) by simp
  have ta: "train_avg_losses (trace ?s6) = train_avg_losses (trace s) @ [(epoch, ?avg)]"
    unfolding tr6 using st(2) by simp
  have avg: "?avg = float_div (float_round c) (foldl (py_add (float_round c)) (Finite 0) losses) ?n"
    using ls(3) by simp
  have best: "if py_lt ?avg (best_val_loss s)
               then best_val_loss ?s6 = ?avg \<and> snapshot_values ?s6 = model_values ?s6
               else best_val_loss ?s6 = best_val_loss s
                    \<and> best_model_state_dict ?s6 = best_model_state_dict s
                    \<and> snapshot_values ?s6 = snapshot_values s"
  proof (cases "py_lt ?avg (best_val_loss s)")
    case True
    then have "py_lt ?avg (best_val_loss ?s5)" using f5(1) by simp
    then have "best_val_loss ?s6 = ?avg"
        "sd_values (best_model_state_dict ?s6) (cells ?s6) = model_values ?s5"
      using sb by simp_all
    moreover have "model_values ?s6 = model_values ?s5" using sb by simp
    ultimately show ?thesis using True by (simp add: snapshot_values_def)
  next
    case False
    then have "\<not> py_lt ?avg (best_val_loss ?s5)" using f5(1) by simp
    then have "?s6 = ?s5" using sb by simp
    then show ?thesis using False f5 snap5 by simp
  qed
  obtain s' where e: "training_epoch c epoch s = Inr s'" "setup_same s s'"
    using training_epoch_effect[OF assms(1), of c epoch] by blast
  have ok6: "learner_ok ?s6" using e run setup_same_ok[OF _ assms(1)] by simp
  have sok: "store_ok ?s6" using sb by simp
  show ?thesis
    apply (rule exI[of _ ?s6], rule exI[of _ ?avg], rule exI[of _ losses])
    using run tb ls(2) len avg ta best ok6 sok by (simp only:)
qed

lemma best_model_example:
  "map_sum id (\<lambda>s. (train_avg_losses (trace s), best_val_loss s, snapshot_values s, model_values s))
     (fit demo_collab 1 4 (demo_learner 1 (demo_loader demo_ds1 1 [[0]]) (demo_loader demo_ds1 1 [[0]])))
   = Inr ([(1, Finite 2.0), (2, Finite 1.5), (3, Finite 1.8), (4, Finite 1.2)], Finite 1.2, [(''weight'', 4)], [(''weight'', 4)])
   \<and> map_sum id (\<lambda>s. (snapshot_values s, model_values s))
     (fit demo_collab 1 3 (demo_learner 1 (demo_loader demo_ds1 1 [[0]]) (demo_loader demo_ds1 1 [[0]])))
   = Inr ([(''weight'', 2)], [(''weight'', 3)])
   \<and> map_sum id (\<lambda>s. (best_val_loss s, snapshot_values s, model_values s))
     (fit demo_collab 1 5 (demo_learner 1 (demo_loader demo_ds1 1 [[0]]) (demo_loader demo_ds1 1 [[0]])))
   = Inr (Finite 1.2, [(''weight'', 4)], [(''weight'', 5)])"
  by code_simp

text \<open>
  C3. In a well-formed learner with a well-formed store every training epoch completes;
  its average loss, the float sum of the batch losses it logged (added in batch order,
  starting from 0) divided by the number of batches, is the one it logs; and the
  best-model snapshot is replaced exactly when that average is strictly lower, in
  Python's float comparison, than the best loss so far, which starts as infinity. A
  replaced snapshot denotes the values the live parameters have at the end of the
  epoch, held at addresses of its own; a snapshot that is not replaced still denotes the
  values it denoted before the epoch, whatever the optimizer did to the live parameters
  meanwhile; and no later training batch changes the snapshot or the values it denotes.
  With the epoch averages 2.0, 1.5, 1.8, 1.2 the snapshot retained after four epochs
  is the one taken at the end of the fourth (parameter value 4, where after three epochs
  it is still the one of the second); it is unchanged by a fifth epoch with a higher
  loss, which moves the live parameter to 5.
\<close>

theorem best_model_snapshot:
  assumes "learner_ok s" and "store_ok s"
  shows "(\<exists>s' loss_avg losses. training_epoch c epoch s = Inr s'
            \<and> train_batch_losses (trace s') = train_batch_losses (trace s) @ losses
            \<and> length losses = dataloader_len (train_dataloader s)
            \<and> loss_avg = float_div (float_round c) (foldl (py_add (float_round c)) (Finite 0) losses)
                          (dataloader_len (train_dataloader s))
            \<and> train_avg_losses (trace s') = train_avg_losses (trace s) @ [(epoch, loss_avg)]
            \<and> (if py_lt loss_avg (best_val_loss s)
                then best_val_loss s' = loss_avg \<and> snapshot_values s' = model_values s'
                else best_val_loss s' = best_val_loss s
                     \<and> best_model_state_dict s' = best_model_state_dict s
                     \<and> snapshot_values s' = snapshot_values s)
            \<and> learner_ok s' \<and> store_ok s'
            \<and> (\<forall>e i batch l. \<exists>l' s1. training_batch c e i batch l s' = Inr (l', s1)
                  \<and> best_model_state_dict s1 = best_model_state_dict s'
                  \<and> snapshot_values s1 = snapshot_values s' \<and> store_ok s1))
       \<and> map_sum id (\<lambda>s. (train_avg_losses (trace s), best_val_loss s, snapshot_values s, model_values s))
            (fit demo_collab 1 4
               (demo_learner 1 (demo_loader demo_ds1 1 [[0]]) (demo_loader demo_ds1 1 [[0]])))
          = Inr ([(1, Finite 2.0), (2, Finite 1.5), (3, Finite 1.8), (4, Finite 1.2)], Finite 1.2,
                 [(''weight'', 4)], [(''weight'', 4)])
       \<and> map_sum id (\<lambda>s. (snapshot_values s, model_values s))
            (fit demo_collab 1 3
               (demo_learner 1 (demo_loader demo_ds1 1 [[0]]) (demo_loader demo_ds1 1 [[0]])))
          = Inr ([(''weight'', 2)], [(''weight'', 3)])
       \<and> map_sum id (\<lambda>s. (best_val_loss s, snapshot_values s, model_values s))
            (fit demo_collab 1 5
               (demo_learner 1 (demo_loader demo_ds1 1 [[0]]) (demo_loader demo_ds1 1 [[0]])))
          = Inr (Finite 1.2, [(''weight'', 4)], [(''weight'', 5)])"
proof -
  obtain s' loss_avg losses where r: "training_epoch c epoch s = Inr s'"
      "train_batch_losses (trace s') = train_batch_losses (trace s) @ losses"
      "length losses = dataloader_len (train_dataloader s)"
      "loss_avg = float_div (float_round c) (foldl (py_add (float_round c)) (Finite 0) losses)
                          (dataloader_len (train_dataloader s))"
      "train_avg_losses (trace s') = train_avg_losses (trace s) @ [(epoch, loss_avg)]"
      "if py_lt loss_avg (best_val_loss s)
                then best_val_loss s' = loss_avg \<and> snapshot_values s' = model_values s'
                else best_val_loss s' = best_val_loss s
                     \<and> best_model_state_dict s' = best_model_state_dict s
                     \<and> snapshot_values s' = snapshot_values s"
      "learner_ok s'" "store_ok s'"
    using training_epoch_snapshot[OF assms, of c epoch] by blast
  have k: "GRAD_ACCUMULATION_STEPS (config s') \<noteq> 0" using r(7) by (simp add: learner_ok_def)
  have b: "\<forall>e i batch l. \<exists>l' s1. training_batch c e i batch l s' = Inr (l', s1)
                  \<and> best_model_state_dict s1 = best_model_state_dict s'
                  \<and> snapshot_values s1 = snapshot_values s' \<and> store_ok s1"
    using training_batch_snapshot[OF k r(8), of c] by blast
  have g: "\<exists>s' loss_avg losses. training_epoch c epoch s = Inr s'
            \<and> train_batch_losses (trace s') = train_batch_losses (trace s) @ losses
            \<and> length losses = dataloader_len (train_dataloader s)
            \<and> loss_avg = float_div (float_round c) (foldl (py_add (float_round c)) (Finite 0) losses)
                          (dataloader_len (train_dataloader s))
            \<and> train_avg_losses (trace s') = train_avg_losses (trace s) @ [(epoch, loss_avg)]
            \<and> (if py_lt loss_avg (best_val_loss s)
                then best_val_loss s' = loss_avg \<and> snapshot_values s' = model_values s'
                else best_val_loss s' = best_val_loss s
                     \<and> best_model_state_dict s' = best_model_state_dict s
                     \<and> snapshot_values s' = snapshot_values s)
            \<and> learner_ok s' \<and> store_ok s'
            \<and> (\<forall>e i batch l. \<exists>l' s1. training_batch c e i batch l s' = Inr (l', s1)
                  \<and> best_model_state_dict s1 = best_model_state_dict s'
                  \<and> snapshot_values s1 = snapshot_values s' \<and> store_ok s1)"
    apply (rule exI[of _ s'], rule exI[of _ loss_avg], rule exI[of _ losses])
    apply (intro conjI)
    by (rule r b)+
  show ?thesis using g best_model_example by (rule conjI)
qed

theorem best_model_snapshot_witness:
  "learner_ok (demo_learner 1 (demo_loader demo_ds1 1 [[0]]) (demo_loader demo_ds1 1 [[0]]))
   \<and> store_ok (demo_learner 1 (demo_loader demo_ds1 1 [[0]]) (demo_loader demo_ds1 1 [[0]]))
   \<and> (\<exists>s'.
         training_epoch demo_collab 1
           (demo_learner 1 (demo_loader demo_ds1 1 [[0]]) (demo_loader demo_ds1 1 [[0]])) = Inr s'
         \<and> best_val_loss s' = Finite 2 \<and> snapshot_values s' = model_values s')"
proof -
  let ?s = "demo_learner 1 (demo_loader demo_ds1 1 [[0]]) (demo_loader demo_ds1 1 [[0]])"
  have ok: "learner_ok ?s" by code_simp
  have st: "store_ok ?s" by code_simp
  have n: "best_val_loss ?s = PosInf" "train_avg_losses (trace ?s) = []" by code_simp+
  have ev: "map_sum id train_avg_losses (map_sum id trace (training_epoch demo_collab 1 ?s))
            = Inr [(1, Finite 2)]"
    by code_simp
  obtain s' loss_avg where r: "training_epoch demo_collab 1 ?s = Inr s'"
      "train_avg_losses (trace s') = train_avg_losses (trace ?s) @ [(1, loss_avg)]"
      "if py_lt loss_avg (best_val_loss ?s)
                then best_val_loss s' = loss_avg \<and> snapshot_values s' = model_values s'
                else best_val_loss s' = best_val_loss ?s
                     \<and> best_model_state_dict s' = best_model_state_dict ?s
                     \<and> snapshot_values s' = snapshot_values ?s"
    using best_model_snapshot[OF ok st, of demo_collab 1] by blast
  have "loss_avg = Finite 2" using ev r(2) unfolding r(1) n by simp
  then have "best_val_loss s' = Finite 2 \<and> snapshot_values s' = model_values s'"
    using r(3) unfolding n by simp
  then show ?thesis using ok st r(1) by blast
qed

section \<open>An empty partition\<close>








end
